theory Spec2Isabelle
  imports Complex_Main
begin

section \<open>Denon MC2000 controller script: LED manager, jog wheels, shift layer\<close>

text \<open>
  A shallow embedding of \<^verbatim>\<open>Denon-MC2000-scripts.js\<close>. The script is event driven and
  single threaded: every handler runs to completion. Handlers are modelled as functions
  from the script's global state (and the state of the external ports they call) to the
  new state. Calls to the external ports (\<^verbatim>\<open>midi.sendShortMsg\<close>, \<^verbatim>\<open>engine.*\<close>) are
  appended to a log, oldest first, so that a theorem can say which calls a handler made.

  JavaScript numbers are modelled as rationals (\<^typ>\<open>rat\<close>) where the script computes
  fractions and as integers where it only receives MIDI bytes, timestamps or counters:
  rounding of IEEE doubles is not modelled. Time is a count of milliseconds; the clock
  of \<^verbatim>\<open>Date.now()\<close> and the clock of the engine's timers are one clock.
\<close>

subsection \<open>JavaScript values handed to the LED manager\<close>

text \<open>
  \<^verbatim>\<open>JOther\<close> stands for every value that is strictly equal to none of the literals the
  script compares with: objects, functions, \<^verbatim>\<open>NaN\<close> and the infinities.
\<close>

datatype jsval = JUndefined | JNull | JBool bool | JNum rat | JStr string | JOther

datatype js_error = TypeError

subsection \<open>LED status bytes and normalisation\<close>

text \<open>\<^verbatim>\<open>MC2000.LED_STATE = { OFF: 0x4B, ON: 0x4A, BLINK: 0x4C }\<close>\<close>

definition LED_STATE_OFF :: nat where
  "LED_STATE_OFF = 0x4B"

definition LED_STATE_ON :: nat where
  "LED_STATE_ON = 0x4A"

definition LED_STATE_BLINK :: nat where
  "LED_STATE_BLINK = 0x4C"

text \<open>
  \<^verbatim>\<open>
  function normalize(status) {
      if (status === 0 || status === false || status === 'off') return MC2000.LED_STATE.OFF;
      if (status === 2 || status === 'blink') return MC2000.LED_STATE.BLINK;
      return MC2000.LED_STATE.ON;
  }
  \<close>
\<close>

definition normalize_led :: "jsval \<Rightarrow> nat" where
  "normalize_led status =
     (if status = JNum 0 \<or> status = JBool False \<or> status = JStr ''off'' then LED_STATE_OFF
      else if status = JNum 2 \<or> status = JStr ''blink'' then LED_STATE_BLINK
      else LED_STATE_ON)"

subsection \<open>The LED table\<close>

text \<open>
  \<^verbatim>\<open>MC2000.leds\<close>: symbolic name and device code, in the order of the object literal.
\<close>

definition leds :: "(string \<times> nat) list" where
  "leds =
    [(''shiftlock'', 2), (''vinylmode'', 6), (''keylock'', 8), (''sync'', 9),
     (''cue1'', 17), (''cue2'', 19), (''cue3'', 21), (''cue4'', 23),
     (''samp1_l'', 25), (''samp2_l'', 27), (''samp3_l'', 29), (''samp4_l'', 32),
     (''samples_l'', 35), (''samp1_r'', 65), (''samp2_r'', 67), (''samp3_r'', 69),
     (''samp4_r'', 71), (''samples_r'', 73), (''cue'', 38), (''play'', 39),
     (''loopin'', 0x24), (''loopout'', 0x40), (''autoloop'', 0x2b),
     (''fx1_1'', 0x5c), (''fx1_2'', 0x5d), (''fx1_3'', 0x5e),
     (''fx2_1'', 0x60), (''fx2_2'', 0x61), (''fx2_3'', 0x62),
     (''monitorcue_l'', 69), (''monitorcue_r'', 81),
     (''sampler1'', 0x19), (''sampler2'', 0x1b), (''sampler3'', 0x1d), (''sampler4'', 0x20),
     (''sampler5'', 0x41), (''sampler6'', 0x43), (''sampler7'', 0x45), (''sampler8'', 0x47),
     (''samplemode'', 0x1A)]"

record led_def =
  code :: nat
  decks :: "nat list"

text \<open>
  The deck affinity of a name, as the loop that builds \<^verbatim>\<open>LED_MAP\<close> decides it:
  \<^verbatim>\<open>
  if (/(_l|monitorcue_l)$/i.test(name)) { decks = [1]; }
  else if (/(_r|monitorcue_r)$/i.test(name)) { decks = [2]; }
  else if (/^sampler[1-4]$/.test(name)) { decks = [1]; }
  else if (/^sampler[5-8]$/.test(name)) { decks = [2]; }
  else { decks = [1, 2]; }
  \<close>
  The first two patterns match a name whose last two characters are an underscore and the
  letter, in either case (the second alternative of each ends in the first).
\<close>

definition last2 :: "string \<Rightarrow> string" where
  "last2 name = drop (length name - 2) name"

definition decksFor :: "string \<Rightarrow> nat list" where
  "decksFor name =
     (if last2 name = ''_l'' \<or> last2 name = ''_L'' then [1]
      else if last2 name = ''_r'' \<or> last2 name = ''_R'' then [2]
      else if name \<in> set [''sampler1'', ''sampler2'', ''sampler3'', ''sampler4''] then [1]
      else if name \<in> set [''sampler5'', ''sampler6'', ''sampler7'', ''sampler8''] then [2]
      else [1, 2])"

text \<open>
  \<^verbatim>\<open>var LED_MAP = {}\<close> is a plain object, so \<^verbatim>\<open>LED_MAP[name]\<close> finds the entries the
  loop stored and, for a name it did not store, whatever \<^verbatim>\<open>Object.prototype\<close> has under
  that name: a function or object, which is truthy and has neither \<^verbatim>\<open>code\<close> nor
  \<^verbatim>\<open>decks\<close>.
\<close>

definition objectPrototypeNames :: "string list" where
  "objectPrototypeNames =
    [''constructor'', ''toString'', ''toLocaleString'', ''valueOf'', ''hasOwnProperty'',
     ''isPrototypeOf'', ''propertyIsEnumerable'', ''__proto__'',
     ''__defineGetter__'', ''__defineSetter__'', ''__lookupGetter__'', ''__lookupSetter__'']"

datatype led_lookup = NoProperty | OwnEntry led_def | InheritedProperty

definition LED_MAP_own :: "string \<Rightarrow> led_def option" where
  "LED_MAP_own = map_of (map (\<lambda>(name, c). (name, \<lparr>code = c, decks = decksFor name\<rparr>)) leds)"

definition LED_MAP :: "string \<Rightarrow> led_lookup" where
  "LED_MAP name =
     (case LED_MAP_own name of
        Some d \<Rightarrow> OwnEntry d
      | None \<Rightarrow> if name \<in> set objectPrototypeNames then InheritedProperty else NoProperty)"

subsection \<open>The write cache and the device port\<close>

text \<open>
  A non-negative integer as JavaScript's string concatenation prints it: in decimal.
\<close>

definition digit_char :: "nat \<Rightarrow> char" where
  "digit_char n = char_of (48 + n)"

fun show_nat :: "nat \<Rightarrow> string" where
  "show_nat n =
     (if n < 10 then [digit_char n] else show_nat (n div 10) @ [digit_char (n mod 10)])"

text \<open>
  \<^verbatim>\<open>function key(deck, code) { return deck + '|' + code; }\<close>
  The code is \<^verbatim>\<open>undefined\<close> (\<open>None\<close>) when it is read from an inherited property.
\<close>

definition key :: "nat \<Rightarrow> nat option \<Rightarrow> string" where
  "key deck c =
     show_nat deck @ ''|'' @ (case c of None \<Rightarrow> ''undefined'' | Some n \<Rightarrow> show_nat n)"

text \<open>
  The state of the LED manager and of the MIDI output port: the cache (key to last
  status byte sent) and the messages given to \<^verbatim>\<open>midi.sendShortMsg\<close>, oldest first.
\<close>

type_synonym midi_msg = "int \<times> nat \<times> nat option"

record led_state =
  cache :: "string \<Rightarrow> nat option"
  midi_out :: "midi_msg list"

text \<open>
  \<^verbatim>\<open>
  function send(deck, code, statusByte) {
      var k = key(deck, code);
      if (cache[k] === statusByte) return; // suppress redundant MIDI traffic
      cache[k] = statusByte;
      midi.sendShortMsg(0xB0 + (deck - 1), statusByte, code);
  }
  \<close>
\<close>

definition send :: "nat \<Rightarrow> nat option \<Rightarrow> nat \<Rightarrow> led_state \<Rightarrow> led_state" where
  "send deck c statusByte s =
     (let k = key deck c in
      if cache s k = Some statusByte then s
      else s\<lparr>cache := (cache s)(k \<mapsto> statusByte),
             midi_out := midi_out s @ [(0xB0 + (int deck - 1), statusByte, c)]\<rparr>)"

text \<open>
  \<^verbatim>\<open>var decks = (opts && opts.deck) ? [opts.deck] : def.decks;\<close>
  The options are modelled by the deck they name: \<open>None\<close> when \<^verbatim>\<open>opts\<close> or
  \<^verbatim>\<open>opts.deck\<close> is missing. A deck \<open>0\<close> is falsy. The result is \<open>None\<close> when
  \<^verbatim>\<open>def.decks\<close> is taken and is \<^verbatim>\<open>undefined\<close>.
\<close>

definition targetDecks :: "nat option \<Rightarrow> nat list option \<Rightarrow> nat list option" where
  "targetDecks opts defDecks =
     (case opts of
        Some d \<Rightarrow> if d \<noteq> 0 then Some [d] else defDecks
      | None \<Rightarrow> defDecks)"

text \<open>\<^verbatim>\<open>decks.forEach(function(d) { send(d, def.code, statusByte); })\<close>\<close>

definition sendEach :: "nat list \<Rightarrow> nat option \<Rightarrow> nat \<Rightarrow> led_state \<Rightarrow> led_state" where
  "sendEach ds c statusByte s = foldl (\<lambda>s' d. send d c statusByte s') s ds"

text \<open>
  \<^verbatim>\<open>
  set: function(name, status, opts) {
      var def = LED_MAP[name];
      if (!def) return;
      var decks = (opts && opts.deck) ? [opts.deck] : def.decks;
      var statusByte = normalize(status);
      decks.forEach(function(d) { send(d, def.code, statusByte); });
  }
  \<close>
  Calling \<^verbatim>\<open>forEach\<close> on \<^verbatim>\<open>undefined\<close> throws a \<^verbatim>\<open>TypeError\<close>.
\<close>

definition LedManager_set :: "string \<Rightarrow> jsval \<Rightarrow> nat option \<Rightarrow> led_state \<Rightarrow> js_error + led_state" where
  "LedManager_set name status opts s =
     (case LED_MAP name of
        NoProperty \<Rightarrow> Inr s
      | OwnEntry d \<Rightarrow>
          (case targetDecks opts (Some (decks d)) of
             None \<Rightarrow> Inl TypeError
           | Some ds \<Rightarrow> Inr (sendEach ds (Some (code d)) (normalize_led status) s))
      | InheritedProperty \<Rightarrow>
          (case targetDecks opts None of
             None \<Rightarrow> Inl TypeError
           | Some ds \<Rightarrow> Inr (sendEach ds None (normalize_led status) s)))"

text \<open>
  \<^verbatim>\<open>
  setRaw: function(name, statusByte, opts) {
      var def = LED_MAP[name];
      if (!def) return;
      var decks = (opts && opts.deck) ? [opts.deck] : def.decks;
      decks.forEach(function(d) { send(d, def.code, statusByte); });
  }
  \<close>
\<close>

definition LedManager_setRaw :: "string \<Rightarrow> nat \<Rightarrow> nat option \<Rightarrow> led_state \<Rightarrow> js_error + led_state" where
  "LedManager_setRaw name statusByte opts s =
     (case LED_MAP name of
        NoProperty \<Rightarrow> Inr s
      | OwnEntry d \<Rightarrow>
          (case targetDecks opts (Some (decks d)) of
             None \<Rightarrow> Inl TypeError
           | Some ds \<Rightarrow> Inr (sendEach ds (Some (code d)) statusByte s))
      | InheritedProperty \<Rightarrow>
          (case targetDecks opts None of
             None \<Rightarrow> Inl TypeError
           | Some ds \<Rightarrow> Inr (sendEach ds None statusByte s)))"

text \<open>
  A sequence of \<^verbatim>\<open>LedManager.set\<close> calls, each given as name, status and target deck.
  An exception ends the sequence.
\<close>

fun set_calls :: "(string \<times> jsval \<times> nat option) list \<Rightarrow> led_state \<Rightarrow> js_error + led_state" where
  "set_calls [] s = Inr s"
| "set_calls ((name, status, opts) # cs) s =
     (case LedManager_set name status opts s of
        Inl e \<Rightarrow> Inl e
      | Inr s' \<Rightarrow> set_calls cs s')"

text \<open>The manager as the script creates it: \<^verbatim>\<open>var cache = {}\<close>, nothing sent.\<close>

definition led_init :: led_state where
  "led_init = \<lparr>cache = (\<lambda>k. None), midi_out = []\<rparr>"

text \<open>A state in which the play LED of deck 1 has been lit: the cache holds \<open>0x4A\<close>.\<close>

definition led_play_lit :: led_state where
  "led_play_lit = \<lparr>cache = (\<lambda>k. if k = ''1|39'' then Some 0x4A else None),
                    midi_out = [(0xB0, 0x4A, Some 39)]\<rparr>"

subsection \<open>Jog wheel: tunable constants\<close>

definition jogResolution :: rat where
  "jogResolution = 96"

definition jogRpm :: rat where
  "jogRpm = 33 + 1 / 3"

definition jogScratchAlpha :: rat where
  "jogScratchAlpha = 1 / 16"

definition jogScratchBeta :: rat where
  "jogScratchBeta = (1 / 16) / 64"

definition jogMaxScaling :: rat where
  "jogMaxScaling = 5 / 4"

definition jogScrubScaling :: rat where
  "jogScrubScaling = 1 / 10000"

definition jogPitchScale :: rat where
  "jogPitchScale = 1 / 4"

definition jogCenter :: int where
  "jogCenter = 0x40"

subsection \<open>Jog wheel: decoding the relative encoder value\<close>

text \<open>
  Both \<^verbatim>\<open>MC2000.jogTouch\<close> and \<^verbatim>\<open>MC2000.jogWheel\<close> start with the same lines:
  \<^verbatim>\<open>
  var movement = value - MC2000.jogCenter;
  if (movement > 64) movement -= 128;
  if (movement < -64) movement += 128;
  \<close>
\<close>

definition jogMovement :: "int \<Rightarrow> int" where
  "jogMovement v =
     (let movement = v - jogCenter;
          movement = (if movement > 64 then movement - 128 else movement);
          movement = (if movement < - 64 then movement + 128 else movement)
      in movement)"

subsection \<open>Handlers that may throw\<close>

text \<open>
  A handler either returns or throws; in both cases the assignments it made so far
  stay, so both outcomes carry the state.
\<close>

datatype 'a outcome = Returned 'a | Threw js_error 'a

fun state_of :: "'a outcome \<Rightarrow> 'a" where
  "state_of (Returned s) = s"
| "state_of (Threw e s) = s"

definition andThen :: "'a outcome \<Rightarrow> ('a \<Rightarrow> 'a outcome) \<Rightarrow> 'a outcome" where
  "andThen r f = (case r of Returned s \<Rightarrow> f s | Threw e s \<Rightarrow> Threw e s)"

subsection \<open>Jog wheel: script state and engine port\<close>

text \<open>
  The calls the script makes on the engine, as they are logged.
  \<open>BeginTimer\<close> carries the handle the engine returned and the delay.
\<close>

datatype engine_call =
    SetValue string string rat
  | ScratchEnable nat rat rat rat rat
  | ScratchTick nat rat
  | ScratchDisable nat
  | BeginTimer nat int
  | StopTimer nat

text \<open>
  The function given to \<^verbatim>\<open>engine.beginTimer\<close> in \<^verbatim>\<open>jogTouch\<close>, with the deck number
  and the group its closure holds.
\<close>

datatype timer_callback = JogRelease nat string

text \<open>
  The script's jog state
  \<^verbatim>\<open>
  MC2000.deck = { "[Channel1]": {scratchMode: false}, "[Channel2]": {scratchMode: false} };
  MC2000.jogScratchActive = [false, false, false];
  MC2000.jogReleaseTimer  = [null, null, null];
  MC2000.jogLastTickTime  = [0, 0, 0];
  MC2000.jogTickCount     = [0, 0, 0];
  \<close>
  and what the model keeps of the engine: the control values \<^verbatim>\<open>engine.getValue\<close> reads,
  the pending timers (handle, time at which it is due, callback), the next handle, and
  the log of calls. The arrays are indexed by the deck number, which \<^verbatim>\<open>deckIndex\<close>
  keeps to 1 and 2; they are modelled as functions of the index.
\<close>

record mc_state =
  jogScratchActive :: "nat \<Rightarrow> bool"
  jogReleaseTimer :: "nat \<Rightarrow> nat option"
  jogLastTickTime :: "nat \<Rightarrow> int"
  jogTickCount :: "nat \<Rightarrow> nat"
  deckScratchMode :: "string \<Rightarrow> bool"
  controls :: "string \<Rightarrow> string \<Rightarrow> rat"
  timers :: "(nat \<times> int \<times> timer_callback) list"
  next_timer :: nat
  calls :: "engine_call list"

definition mc_init :: mc_state where
  "mc_init =
     \<lparr>jogScratchActive = (\<lambda>i. False), jogReleaseTimer = (\<lambda>i. None),
      jogLastTickTime = (\<lambda>i. 0), jogTickCount = (\<lambda>i. 0),
      deckScratchMode = (\<lambda>g. False), controls = (\<lambda>g k. 0),
      timers = [], next_timer = 1, calls = []\<rparr>"

text \<open>
  \<^verbatim>\<open>
  MC2000.deckIndex = function(group) {
      if (group === "[Channel1]") return 1;
      if (group === "[Channel2]") return 2;
      return 1;
  };
  \<close>
\<close>

definition deckIndex :: "string \<Rightarrow> nat" where
  "deckIndex grp =
     (if grp = ''[Channel1]'' then 1 else if grp = ''[Channel2]'' then 2 else 1)"

definition engine_getValue :: "mc_state \<Rightarrow> string \<Rightarrow> string \<Rightarrow> rat" where
  "engine_getValue s grp k = controls s grp k"

definition engine_setValue :: "string \<Rightarrow> string \<Rightarrow> rat \<Rightarrow> mc_state \<Rightarrow> mc_state" where
  "engine_setValue grp k v s =
     s\<lparr>controls := (controls s)(grp := (controls s grp)(k := v)),
       calls := calls s @ [SetValue grp k v]\<rparr>"

definition engine_scratchEnable :: "nat \<Rightarrow> rat \<Rightarrow> rat \<Rightarrow> rat \<Rightarrow> rat \<Rightarrow> mc_state \<Rightarrow> mc_state" where
  "engine_scratchEnable deck res rpm alpha beta s =
     s\<lparr>calls := calls s @ [ScratchEnable deck res rpm alpha beta]\<rparr>"

definition engine_scratchTick :: "nat \<Rightarrow> rat \<Rightarrow> mc_state \<Rightarrow> mc_state" where
  "engine_scratchTick deck delta s = s\<lparr>calls := calls s @ [ScratchTick deck delta]\<rparr>"

definition engine_scratchDisable :: "nat \<Rightarrow> mc_state \<Rightarrow> mc_state" where
  "engine_scratchDisable deck s = s\<lparr>calls := calls s @ [ScratchDisable deck]\<rparr>"

text \<open>
  \<^verbatim>\<open>engine.beginTimer(ms, callback, true)\<close> at time \<open>now\<close>: a one-shot timer due at
  \<open>now + ms\<close>, under a fresh handle. \<^verbatim>\<open>engine.stopTimer(id)\<close> removes it.
\<close>

definition engine_beginTimer :: "int \<Rightarrow> timer_callback \<Rightarrow> int \<Rightarrow> mc_state \<Rightarrow> nat \<times> mc_state" where
  "engine_beginTimer ms cb now s =
     (next_timer s,
      s\<lparr>timers := timers s @ [(next_timer s, now + ms, cb)],
        next_timer := next_timer s + 1,
        calls := calls s @ [BeginTimer (next_timer s) ms]\<rparr>)"

definition engine_stopTimer :: "nat \<Rightarrow> mc_state \<Rightarrow> mc_state" where
  "engine_stopTimer t s =
     s\<lparr>timers := filter (\<lambda>p. fst p \<noteq> t) (timers s),
       calls := calls s @ [StopTimer t]\<rparr>"

text \<open>
  \<^verbatim>\<open>MC2000.deck[group].scratchMode = b\<close>: \<^verbatim>\<open>MC2000.deck\<close> has the two channels and,
  being a plain object, the properties of \<^verbatim>\<open>Object.prototype\<close>; for any other group
  \<^verbatim>\<open>MC2000.deck[group]\<close> is \<^verbatim>\<open>undefined\<close> and the assignment throws.
\<close>

definition deckHas :: "string \<Rightarrow> bool" where
  "deckHas grp =
     (grp = ''[Channel1]'' \<or> grp = ''[Channel2]'' \<or> grp \<in> set objectPrototypeNames)"

definition setScratchMode :: "string \<Rightarrow> bool \<Rightarrow> mc_state \<Rightarrow> mc_state outcome" where
  "setScratchMode grp b s =
     (if deckHas grp then Returned (s\<lparr>deckScratchMode := (deckScratchMode s)(grp := b)\<rparr>)
      else Threw TypeError s)"

subsection \<open>Jog wheel: the touch handler\<close>

text \<open>
  \<^verbatim>\<open>
  var now = Date.now();
  var timeDiff = now - MC2000.jogLastTickTime[deckNum];
  if (timeDiff > 150) { MC2000.jogTickCount[deckNum] = 0; }
  MC2000.jogTickCount[deckNum]++;
  MC2000.jogLastTickTime[deckNum] = now;
  \<close>
\<close>

definition jogCountTick :: "int \<Rightarrow> nat \<Rightarrow> mc_state \<Rightarrow> mc_state" where
  "jogCountTick now deckNum s =
     (let timeDiff = now - jogLastTickTime s deckNum;
          s1 = (if timeDiff > 150 then s\<lparr>jogTickCount := (jogTickCount s)(deckNum := 0)\<rparr> else s);
          s2 = s1\<lparr>jogTickCount := (jogTickCount s1)(deckNum := jogTickCount s1 deckNum + 1)\<rparr>
      in s2\<lparr>jogLastTickTime := (jogLastTickTime s2)(deckNum := now)\<rparr>)"

text \<open>
  \<^verbatim>\<open>var speedFactor = Math.min(1 + MC2000.jogTickCount[deckNum] / 10, MC2000.jogMaxScaling);\<close>
\<close>

definition speedFactor :: "nat \<Rightarrow> rat" where
  "speedFactor tickCount = min (1 + of_nat tickCount / 10) jogMaxScaling"

text \<open>
  The block under \<^verbatim>\<open>if (!MC2000.jogScratchActive[deckNum])\<close>:
  \<^verbatim>\<open>
  var slipEnabled = engine.getValue(group, "slip_enabled");
  if (!slipEnabled) { engine.setValue(group, "slip_enabled", 1); }
  engine.scratchEnable(deckNum, MC2000.jogResolution, MC2000.jogRpm,
                       MC2000.jogScratchAlpha, MC2000.jogScratchBeta);
  MC2000.jogScratchActive[deckNum] = true;
  MC2000.deck[group].scratchMode = true;
  \<close>
\<close>

definition scratchStart :: "nat \<Rightarrow> string \<Rightarrow> mc_state \<Rightarrow> mc_state outcome" where
  "scratchStart deckNum grp s =
     (let slipEnabled = engine_getValue s grp ''slip_enabled'';
          s1 = (if slipEnabled = 0 then engine_setValue grp ''slip_enabled'' 1 s else s);
          s2 = engine_scratchEnable deckNum jogResolution jogRpm jogScratchAlpha jogScratchBeta s1;
          s3 = s2\<lparr>jogScratchActive := (jogScratchActive s2)(deckNum := True)\<rparr>
      in setScratchMode grp True s3)"

text \<open>
  \<^verbatim>\<open>
  if (MC2000.jogReleaseTimer[deckNum] !== null) {
      engine.stopTimer(MC2000.jogReleaseTimer[deckNum]);
      MC2000.jogReleaseTimer[deckNum] = null;
  }
  MC2000.jogReleaseTimer[deckNum] = engine.beginTimer(50, function() { ... }, true);
  \<close>
\<close>

definition rearmRelease :: "int \<Rightarrow> nat \<Rightarrow> string \<Rightarrow> mc_state \<Rightarrow> mc_state" where
  "rearmRelease now deckNum grp s =
     (let s1 = (case jogReleaseTimer s deckNum of
                  None \<Rightarrow> s
                | Some t \<Rightarrow> (engine_stopTimer t s)
                             \<lparr>jogReleaseTimer := (jogReleaseTimer s)(deckNum := None)\<rparr>);
          (t', s2) = engine_beginTimer 50 (JogRelease deckNum grp) now s1
      in s2\<lparr>jogReleaseTimer := (jogReleaseTimer s2)(deckNum := Some t')\<rparr>)"

text \<open>
  The function the timer calls:
  \<^verbatim>\<open>
  engine.scratchDisable(deckNum);
  MC2000.jogScratchActive[deckNum] = false;
  MC2000.deck[group].scratchMode = false;
  engine.setValue(group, "slip_enabled", 0);
  MC2000.jogReleaseTimer[deckNum] = null;
  \<close>
\<close>

definition jogRelease :: "nat \<Rightarrow> string \<Rightarrow> mc_state \<Rightarrow> mc_state outcome" where
  "jogRelease deckNum grp s =
     (let s1 = engine_scratchDisable deckNum s;
          s2 = s1\<lparr>jogScratchActive := (jogScratchActive s1)(deckNum := False)\<rparr>
      in andThen (setScratchMode grp False s2)
           (\<lambda>s3. let s4 = engine_setValue grp ''slip_enabled'' 0 s3
                 in Returned (s4\<lparr>jogReleaseTimer := (jogReleaseTimer s4)(deckNum := None)\<rparr>)))"

text \<open>
  The scrub branch:
  \<^verbatim>\<open>
  var effectiveScaling = (MC2000.jogTickCount[deckNum] > 3) ? speedFactor : 1;
  var pos = engine.getValue(group, "playposition");
  pos += (movement * effectiveScaling * MC2000.jogScrubScaling);
  if (pos < 0) pos = 0;
  if (pos > 1) pos = 1;
  engine.setValue(group, "playposition", pos);
  \<close>
\<close>

definition scrubPosition :: "rat \<Rightarrow> int \<Rightarrow> rat \<Rightarrow> rat" where
  "scrubPosition pos0 movement effectiveScaling =
     (let pos = pos0 + of_int movement * effectiveScaling * jogScrubScaling;
          pos = (if pos < 0 then 0 else pos);
          pos = (if pos > 1 then 1 else pos)
      in pos)"

definition scrub :: "int \<Rightarrow> nat \<Rightarrow> string \<Rightarrow> rat \<Rightarrow> mc_state \<Rightarrow> mc_state" where
  "scrub movement deckNum grp speed s =
     (let effectiveScaling = (if jogTickCount s deckNum > 3 then speed else 1);
          pos = engine_getValue s grp ''playposition''
      in engine_setValue grp ''playposition'' (scrubPosition pos movement effectiveScaling) s)"

text \<open>
  \<^verbatim>\<open>MC2000.jogTouch = function(channel, control, value, status, group)\<close>, called at the
  time \<open>now\<close> that \<^verbatim>\<open>Date.now()\<close> returns. In the playing branch the movement, scaled,
  goes to \<^verbatim>\<open>engine.scratchTick(deckNum, movement * speedFactor)\<close>.
\<close>

definition jogTouch :: "int \<Rightarrow> int \<Rightarrow> string \<Rightarrow> mc_state \<Rightarrow> mc_state outcome" where
  "jogTouch now v grp s =
     (let deckNum = deckIndex grp;
          movement = jogMovement v
      in if movement = 0 then Returned s
         else
           let s1 = jogCountTick now deckNum s;
               speed = speedFactor (jogTickCount s1 deckNum);
               isPlaying = (engine_getValue s1 grp ''play'' = 1)
           in if isPlaying then
                andThen (if \<not> jogScratchActive s1 deckNum then scratchStart deckNum grp s1
                         else Returned s1)
                  (\<lambda>s2. Returned (rearmRelease now deckNum grp
                           (engine_scratchTick deckNum (of_int movement * speed) s2)))
              else Returned (scrub movement deckNum grp speed s1))"

subsection \<open>Jog wheel: the outer wheel handler\<close>

text \<open>
  \<^verbatim>\<open>
  MC2000.jogWheel = function(channel, control, value, status, group) {
      var deckNum = MC2000.deckIndex(group);
      var movement = value - MC2000.jogCenter;
      if (movement > 64) movement -= 128;
      if (movement < -64) movement += 128;
      if (movement === 0) return;
      if (MC2000.jogScratchActive[deckNum]) {
          MC2000.jogTouch(channel, control, value, status, group);
      } else {
          engine.setValue(group, "jog", movement * MC2000.jogPitchScale);
      }
  };
  \<close>
\<close>

definition jogWheel :: "int \<Rightarrow> int \<Rightarrow> string \<Rightarrow> mc_state \<Rightarrow> mc_state outcome" where
  "jogWheel now v grp s =
     (let deckNum = deckIndex grp;
          movement = jogMovement v
      in if movement = 0 then Returned s
         else if jogScratchActive s deckNum then jogTouch now v grp s
         else Returned (engine_setValue grp ''jog'' (of_int movement * jogPitchScale) s))"

subsection \<open>Jog wheel: a timeline of events\<close>

text \<open>
  The engine calls the callback of a pending timer once and forgets the timer; a handle
  that is not pending (stopped, or fired before) calls nothing.
\<close>

definition timerFired :: "nat \<Rightarrow> mc_state \<Rightarrow> mc_state outcome" where
  "timerFired t s =
     (case find (\<lambda>p. fst p = t) (timers s) of
        None \<Rightarrow> Returned s
      | Some (t', due, JogRelease deckNum g) \<Rightarrow>
          jogRelease deckNum g (s\<lparr>timers := filter (\<lambda>p. fst p \<noteq> t) (timers s)\<rparr>))"

text \<open>
  When the clock reaches \<open>now\<close>, the timers due by then fire, oldest first. An exception
  in a callback does not keep the engine from firing the next.
\<close>

definition fireDue :: "int \<Rightarrow> mc_state \<Rightarrow> mc_state" where
  "fireDue now s =
     foldl (\<lambda>s' p. state_of (timerFired (fst p) s')) s
       (filter (\<lambda>p. fst (snd p) \<le> now) (timers s))"

text \<open>
  An input event of the jog wheel (raw value and group), or a change of a control value
  inside the engine (the play button, the track running on).
\<close>

datatype jog_event = Touch int string | Wheel int string | EngineControl string string rat

fun handleEvent :: "int \<Rightarrow> jog_event \<Rightarrow> mc_state \<Rightarrow> mc_state outcome" where
  "handleEvent now (Touch v grp) s = jogTouch now v grp s"
| "handleEvent now (Wheel v grp) s = jogWheel now v grp s"
| "handleEvent now (EngineControl grp k x) s =
     Returned (s\<lparr>controls := (controls s)(grp := (controls s grp)(k := x))\<rparr>)"

text \<open>
  A timeline: events with their times, in the order they arrive. Before an event is
  handled, the timers due by its time have fired.
\<close>

fun runEvents :: "(int \<times> jog_event) list \<Rightarrow> mc_state \<Rightarrow> mc_state" where
  "runEvents [] s = s"
| "runEvents ((now, ev) # evs) s = runEvents evs (state_of (handleEvent now ev (fireDue now s)))"

text \<open>
  What the scrub clamp promises of a call: a write of the play position is in \<open>[0,1]\<close>.
\<close>

fun positionWriteOk :: "engine_call \<Rightarrow> bool" where
  "positionWriteOk (SetValue g k x) = (if k = ''playposition'' then 0 \<le> x \<and> x \<le> 1 else True)"
| "positionWriteOk c = True"

text \<open>
  A later state whose log is the earlier log followed by calls that keep that promise.
\<close>

definition extendsOk :: "mc_state \<Rightarrow> mc_state \<Rightarrow> bool" where
  "extendsOk s s' = (\<exists>new. calls s' = calls s @ new \<and> list_all positionWriteOk new)"

text \<open>
  The deck a release timer belongs to, the pending release timers of a deck, and the
  bookkeeping the script relies on: handles are distinct and already given out, every
  pending timer is the one its deck's \<^verbatim>\<open>jogReleaseTimer\<close> slot names, and the slots
  (indices 0 to 2) hold handles the engine has given out.
\<close>

fun cb_deck :: "timer_callback \<Rightarrow> nat" where
  "cb_deck (JogRelease d g) = d"

definition pendingFor :: "nat \<Rightarrow> mc_state \<Rightarrow> (nat \<times> int \<times> timer_callback) list" where
  "pendingFor d s = filter (\<lambda>p. cb_deck (snd (snd p)) = d) (timers s)"

definition timersTracked :: "mc_state \<Rightarrow> bool" where
  "timersTracked s =
     (distinct (map fst (timers s))
      \<and> list_all (\<lambda>p. fst p < next_timer s
                       \<and> jogReleaseTimer s (cb_deck (snd (snd p))) = Some (fst p)) (timers s)
      \<and> list_all (\<lambda>d. case jogReleaseTimer s d of None \<Rightarrow> True | Some h \<Rightarrow> h < next_timer s)
           [0, 1, 2])"

text \<open>
  A unit that is scratching on a playing deck with its release timer armed: the flag is
  set, and the one pending release timer of the deck is the one the slot names, due at
  the given time and bound to the group.
\<close>

definition scratchArmed :: "nat \<Rightarrow> string \<Rightarrow> int \<Rightarrow> mc_state \<Rightarrow> bool" where
  "scratchArmed d grp due s =
     (timersTracked s \<and> jogScratchActive s d \<and> engine_getValue s grp ''play'' = 1
      \<and> (case jogReleaseTimer s d of
            None \<Rightarrow> False
          | Some h \<Rightarrow> pendingFor d s = [(h, due, JogRelease d grp)]))"

text \<open>
  Ticks given by time and raw value: each decodes to a movement, and each arrives no
  earlier than the one before and less than 50 ms after it. The time of the last tick.
\<close>

fun ticksWithin :: "int \<Rightarrow> (int \<times> int) list \<Rightarrow> bool" where
  "ticksWithin t [] = True"
| "ticksWithin t ((t', v) # r) =
     (t \<le> t' \<and> t' < t + 50 \<and> jogMovement v \<noteq> 0 \<and> ticksWithin t' r)"

fun lastTime :: "int \<Rightarrow> (int \<times> int) list \<Rightarrow> int" where
  "lastTime t [] = t"
| "lastTime t ((t', v) # r) = lastTime t' r"

definition touches :: "string \<Rightarrow> (int \<times> int) list \<Rightarrow> (int \<times> jog_event) list" where
  "touches grp tvs = map (\<lambda>(t, v). (t, Touch v grp)) tvs"

text \<open>Deck 1 playing, nothing else set; and a paused deck 1 at position \<open>1/20000\<close>.\<close>

definition playing1 :: mc_state where
  "playing1 =
     mc_init\<lparr>controls := (\<lambda>g k. if g = ''[Channel1]'' \<and> k = ''play'' then 1 else 0)\<rparr>"

text \<open>Deck 1 after one tick of the touch wheel at time 0 while playing.\<close>

definition scratching1 :: mc_state where
  "scratching1 = runEvents [(0, Touch 65 ''[Channel1]'')] playing1"

text \<open>The same deck after the engine's play control has gone to 0 at time 10.\<close>

definition scratching1_paused :: mc_state where
  "scratching1_paused =
     runEvents [(0, Touch 65 ''[Channel1]''), (10, EngineControl ''[Channel1]'' ''play'' 0)]
       playing1"

definition paused1 :: mc_state where
  "paused1 =
     mc_init\<lparr>controls :=
       (\<lambda>g k. if g = ''[Channel1]'' \<and> k = ''playposition'' then 1 / 20000 else 0)\<rparr>"

subsection \<open>Shift layer: components with two handlers\<close>

text \<open>
  A control of a deck, as far as the shift layer sees it: whether the script gave it a
  \<^verbatim>\<open>shift\<close> and an \<^verbatim>\<open>unshift\<close> method, and which handler its \<^verbatim>\<open>input\<close> property
  holds. Every \<^verbatim>\<open>unshift\<close> of the script assigns the normal handler and every
  \<^verbatim>\<open>shift\<close> the shifted one, for instance
  \<^verbatim>\<open>
  this.keylock.unshift = function() { this.input = this.normalInput; };
  this.keylock.shift = function() { this.input = this.shiftedInput; };
  \<close>
\<close>

datatype binding = NormalInput | ShiftedInput

record component =
  hasShift :: bool
  hasUnshift :: bool
  input :: binding

text \<open>
  One step of the loops in \<^verbatim>\<open>applyShiftState\<close>:
  \<^verbatim>\<open>
  if (shifted && comp.shift) { comp.shift(); }
  else if (comp.unshift) { comp.unshift(); }
  \<close>
\<close>

definition applyTo :: "bool \<Rightarrow> component \<Rightarrow> component" where
  "applyTo shifted ctl =
     (if shifted \<and> hasShift ctl then ctl\<lparr>input := ShiftedInput\<rparr>
      else if hasUnshift ctl then ctl\<lparr>input := NormalInput\<rparr>
      else ctl)"

text \<open>
  A deck: the controls listed in \<^verbatim>\<open>shiftComponents\<close>, by the name of their property,
  and the four hotcue buttons.
\<close>

record deck =
  shiftComponents :: "(string \<times> component) list"
  hotcueButtons :: "component list"

definition applyShiftState :: "bool \<Rightarrow> deck \<Rightarrow> deck" where
  "applyShiftState shifted d =
     d\<lparr>shiftComponents := map (\<lambda>(name, ctl). (name, applyTo shifted ctl)) (shiftComponents d),
       hotcueButtons := map (applyTo shifted) (hotcueButtons d)\<rparr>"

text \<open>
  A deck as \<^verbatim>\<open>new MC2000.Deck(group)\<close> leaves it. The script defines \<^verbatim>\<open>shift\<close> and
  \<^verbatim>\<open>unshift\<close> for all listed controls but \<^verbatim>\<open>sync\<close> and \<^verbatim>\<open>beatTapBtn\<close>, and calls
  \<^verbatim>\<open>unshift()\<close> on each after defining them (the cue button keeps the input of its
  type, its normal handler).
\<close>

definition twoHandlers :: component where
  "twoHandlers = \<lparr>hasShift = True, hasUnshift = True, input = NormalInput\<rparr>"

definition oneHandler :: component where
  "oneHandler = \<lparr>hasShift = False, hasUnshift = False, input = NormalInput\<rparr>"

definition newDeck :: deck where
  "newDeck =
     \<lparr>shiftComponents =
        [(''cue'', twoHandlers), (''sync'', oneHandler), (''keylock'', twoHandlers),
         (''loadTrackBtn'', twoHandlers), (''pitchBendUpBtn'', twoHandlers),
         (''pitchBendDownBtn'', twoHandlers), (''loopInBtn'', twoHandlers),
         (''loopOutBtn'', twoHandlers), (''loopHalveBtn'', twoHandlers),
         (''loopDoubleBtn'', twoHandlers), (''reloopExitBtn'', twoHandlers),
         (''beatTapBtn'', oneHandler)],
      hotcueButtons = [twoHandlers, twoHandlers, twoHandlers, twoHandlers]\<rparr>"

subsection \<open>Shift layer: state and handlers\<close>

text \<open>
  A control of a deck: a property of the deck, by its name, or the hotcue button at an
  index of \<^verbatim>\<open>this.hotcueButtons\<close> (0 to 3).
\<close>

datatype control = Component string | HotcueButton nat

text \<open>
  \<^verbatim>\<open>MC2000.shiftHeld\<close>, \<^verbatim>\<open>MC2000.shiftLock\<close>, \<^verbatim>\<open>MC2000.decks\<close> (\<open>None\<close> until
  \<^verbatim>\<open>buildComponents\<close> has run), the LED manager, and a log of the inputs dispatched:
  group, control, value, and the handler the control's \<^verbatim>\<open>input\<close> held when it was
  called.
\<close>

record shift_state =
  shiftHeld :: bool
  shiftLock :: bool
  decks :: "(string \<times> deck) list option"
  led :: led_state
  dispatched :: "(string \<times> control \<times> int \<times> binding) list"

text \<open>\<^verbatim>\<open>MC2000.isButtonOn = function(value) { return value === 0x7F || value === 0x40; }\<close>\<close>

definition isButtonOn :: "int \<Rightarrow> bool" where
  "isButtonOn v = (v = 0x7F \<or> v = 0x40)"

definition isShiftActive :: "shift_state \<Rightarrow> bool" where
  "isShiftActive s = (shiftHeld s \<or> shiftLock s)"

text \<open>
  \<^verbatim>\<open>
  MC2000.updateShiftState = function() {
      var effectiveShift = MC2000.shiftHeld || MC2000.shiftLock;
      if (MC2000.decks) {
          Object.keys(MC2000.decks).forEach(function(g){
              var d = MC2000.decks[g];
              if (!d) return;
              if (d.applyShiftState) d.applyShiftState(effectiveShift);
          });
      }
      MC2000.LedManager.reflect("shiftlock", MC2000.shiftLock);
  };
  \<close>
  where \<^verbatim>\<open>reflect(name, value, opts)\<close> is \<^verbatim>\<open>this.set(name, value ? 'on' : 'off', opts)\<close>.
\<close>

definition updateShiftState :: "shift_state \<Rightarrow> shift_state outcome" where
  "updateShiftState s =
     (let effectiveShift = (shiftHeld s \<or> shiftLock s);
          s1 = (case decks s of
                  None \<Rightarrow> s
                | Some ds \<Rightarrow>
                    s\<lparr>decks := Some (map (\<lambda>(g, d). (g, applyShiftState effectiveShift d)) ds)\<rparr>)
      in case LedManager_set ''shiftlock'' (JStr (if shiftLock s1 then ''on'' else ''off'')) None
                (led s1) of
           Inl e \<Rightarrow> Threw e s1
         | Inr l \<Rightarrow> Returned (s1\<lparr>led := l\<rparr>))"

text \<open>
  \<^verbatim>\<open>
  MC2000.toggleShift = function(_channel, _control, value) {
      MC2000.shiftHeld = MC2000.isButtonOn(value);
      MC2000.updateShiftState();
  };
  \<close>
\<close>

definition toggleShift :: "int \<Rightarrow> shift_state \<Rightarrow> shift_state outcome" where
  "toggleShift v s = updateShiftState (s\<lparr>shiftHeld := isButtonOn v\<rparr>)"

text \<open>
  \<^verbatim>\<open>MC2000.decks[group].<name>.input(channel, control, value, status, group)\<close>: the call
  goes to the handler the property holds. It throws when \<^verbatim>\<open>MC2000.decks\<close> has no
  such group or the deck no such control; of a deck's controls the model has those of
  \<^verbatim>\<open>shiftComponents\<close>.
\<close>

definition dispatchInput :: "string \<Rightarrow> int \<Rightarrow> string \<Rightarrow> shift_state \<Rightarrow> shift_state outcome" where
  "dispatchInput name v grp s =
     (case decks s of
        None \<Rightarrow> Threw TypeError s
      | Some ds \<Rightarrow>
          (case map_of ds grp of
             None \<Rightarrow> Threw TypeError s
           | Some d \<Rightarrow>
               (case map_of (shiftComponents d) name of
                  None \<Rightarrow> Threw TypeError s
                | Some ctl \<Rightarrow>
                    Returned (s\<lparr>dispatched :=
                      dispatched s @ [(grp, Component name, v, input ctl)]\<rparr>))))"

text \<open>\<^verbatim>\<open>MC2000.decks[group].applyShiftState(MC2000.isShiftActive());\<close>\<close>

definition applyToDeck :: "string \<Rightarrow> shift_state \<Rightarrow> shift_state outcome" where
  "applyToDeck grp s =
     (case decks s of
        None \<Rightarrow> Threw TypeError s
      | Some ds \<Rightarrow>
          (case map_of ds grp of
             None \<Rightarrow> Threw TypeError s
           | Some d \<Rightarrow>
               Returned (s\<lparr>decks := Some (map (\<lambda>(g, d'). if g = grp
                   then (g, applyShiftState (isShiftActive s) d') else (g, d')) ds)\<rparr>)))"

text \<open>
  \<^verbatim>\<open>
  MC2000.cueButton = function(channel, control, value, status, group) {
      MC2000.decks[group].applyShiftState(MC2000.isShiftActive());
      MC2000.decks[group].cue.input(channel, control, value, status, group);
  };
  \<close>
  and \<^verbatim>\<open>MC2000.syncButton\<close> likewise with \<^verbatim>\<open>sync\<close>.
\<close>

definition cueButton :: "int \<Rightarrow> string \<Rightarrow> shift_state \<Rightarrow> shift_state outcome" where
  "cueButton v grp s = andThen (applyToDeck grp s) (dispatchInput ''cue'' v grp)"

definition syncButton :: "int \<Rightarrow> string \<Rightarrow> shift_state \<Rightarrow> shift_state outcome" where
  "syncButton v grp s = andThen (applyToDeck grp s) (dispatchInput ''sync'' v grp)"

text \<open>
  \<^verbatim>\<open>
  MC2000.pflButton = function(channel, control, value, status, group) {
      var wasPressed = MC2000.isButtonOn(value);
      if (wasPressed && MC2000.shiftHeld) {
          MC2000.shiftLock = !MC2000.shiftLock;
          MC2000.updateShiftState();
          return;
      }
      MC2000.decks[group].pfl.input(channel, control, value, status, group);
  };
  \<close>
  The monitor button is not a shift component; its input is logged as the normal handler.
\<close>

definition pflButton :: "int \<Rightarrow> string \<Rightarrow> shift_state \<Rightarrow> shift_state outcome" where
  "pflButton v grp s =
     (let wasPressed = isButtonOn v in
      if wasPressed \<and> shiftHeld s then updateShiftState (s\<lparr>shiftLock := \<not> shiftLock s\<rparr>)
      else (case decks s of
              None \<Rightarrow> Threw TypeError s
            | Some ds \<Rightarrow>
                (case map_of ds grp of
                   None \<Rightarrow> Threw TypeError s
                 | Some d \<Rightarrow>
                     Returned (s\<lparr>dispatched :=
                       dispatched s @ [(grp, Component ''pfl'', v, NormalInput)]\<rparr>))))"

text \<open>
  \<^verbatim>\<open>
  MC2000.mapHotcue = function(midino) {
      var table = { 0x17: 1, 0x18: 2, 0x19: 3, 0x20: 4 };
      return table[midino] || -1;
  };
  \<close>
\<close>

definition mapHotcue :: "int \<Rightarrow> int" where
  "mapHotcue midino =
     (if midino = 0x17 then 1 else if midino = 0x18 then 2
      else if midino = 0x19 then 3 else if midino = 0x20 then 4 else - 1)"

text \<open>
  The hotcue pads:
  \<^verbatim>\<open>
  MC2000.hotcuePad = function(channel, control, value, status, group) {
      var d = MC2000.decks[group];
      if (d && d.hotcueInput) { d.hotcueInput(control, value, status); }
  };
  this.hotcueInput = function(control, value, _status) {
      var n = MC2000.mapHotcue(control);
      if (n < 1 || n > 4 || !this.hotcueButtons[n - 1]) return;
      this.hotcueButtons[n - 1].input(0, control, value, 0, group);
  };
  \<close>
  A group without a deck is ignored; without \<^verbatim>\<open>MC2000.decks\<close> the lookup throws.
\<close>

definition hotcuePad :: "int \<Rightarrow> int \<Rightarrow> string \<Rightarrow> shift_state \<Rightarrow> shift_state outcome" where
  "hotcuePad midino v grp s =
     (case decks s of
        None \<Rightarrow> Threw TypeError s
      | Some ds \<Rightarrow>
          (case map_of ds grp of
             None \<Rightarrow> Returned s
           | Some d \<Rightarrow>
               (let n = mapHotcue midino in
                if n < 1 \<or> n > 4 \<or> \<not> nat (n - 1) < length (hotcueButtons d) then Returned s
                else Returned (s\<lparr>dispatched := dispatched s
                       @ [(grp, HotcueButton (nat (n - 1)), v,
                           input (hotcueButtons d ! nat (n - 1)))]\<rparr>))))"

text \<open>
  The events of the shift layer: the shift button, the monitor button, the cue and sync
  buttons, a button whose wrapper calls the input of the named control directly
  (\<^verbatim>\<open>keylockButton\<close>, \<^verbatim>\<open>loadTrack\<close>, \<^verbatim>\<open>pitchBendUp\<close>, \<^verbatim>\<open>pitchBendDown\<close>,
  \<^verbatim>\<open>loopIn\<close>, \<^verbatim>\<open>loopOut\<close>, \<^verbatim>\<open>reloopExit\<close>, \<^verbatim>\<open>loopHalve\<close>, \<^verbatim>\<open>loopDouble\<close>),
  and a hotcue pad, by its MIDI number.
\<close>

datatype shift_event =
    ToggleShift int
  | PflButton int string
  | CueButton int string
  | SyncButton int string
  | DirectButton string int string
  | HotcuePad int int string

fun handleShiftEvent :: "shift_event \<Rightarrow> shift_state \<Rightarrow> shift_state outcome" where
  "handleShiftEvent (ToggleShift v) s = toggleShift v s"
| "handleShiftEvent (PflButton v grp) s = pflButton v grp s"
| "handleShiftEvent (CueButton v grp) s = cueButton v grp s"
| "handleShiftEvent (SyncButton v grp) s = syncButton v grp s"
| "handleShiftEvent (DirectButton name v grp) s = dispatchInput name v grp s"
| "handleShiftEvent (HotcuePad midino v grp) s = hotcuePad midino v grp s"

fun runShiftEvents :: "shift_event list \<Rightarrow> shift_state \<Rightarrow> shift_state" where
  "runShiftEvents [] s = s"
| "runShiftEvents (ev # evs) s = runShiftEvents evs (state_of (handleShiftEvent ev s))"

text \<open>
  \<^verbatim>\<open>bulk: function(map) { Object.keys(map).forEach(function(n) { self.set(n, map[n]); }); }\<close>
\<close>

definition LedManager_bulk :: "(string \<times> jsval) list \<Rightarrow> led_state \<Rightarrow> js_error + led_state" where
  "LedManager_bulk m l = set_calls (map (\<lambda>(n, status). (n, status, None)) m) l"

text \<open>
  \<^verbatim>\<open>
  MC2000.buildComponents = function() {
      MC2000.decks = {
          "[Channel1]": new MC2000.Deck("[Channel1]"),
          "[Channel2]": new MC2000.Deck("[Channel2]")
      };
      Object.keys(MC2000.decks).forEach(function(g) {
          var d = MC2000.decks[g];
          d.applyShiftState(MC2000.isShiftActive());
          ...
          if (d.sampleModeToggle && d.sampleModeToggle.connect) d.sampleModeToggle.connect();
          ...
      });
  };
  \<close>
  The other \<^verbatim>\<open>connect\<close> methods register a callback with the engine. That of the sample
  mode button writes its LED at once,
  \<^verbatim>\<open>MC2000.LedManager.reflect("samplemode", MC2000.sampleMode[group], {deck: self.deckNumber})\<close>,
  with \<^verbatim>\<open>MC2000.sampleMode[group]\<close> false as the script initialises it.
\<close>

definition buildComponents :: "shift_state \<Rightarrow> shift_state outcome" where
  "buildComponents s =
     (let s1 = s\<lparr>decks := Some [(''[Channel1]'', applyShiftState (isShiftActive s) newDeck),
                                 (''[Channel2]'', applyShiftState (isShiftActive s) newDeck)]\<rparr>
      in case set_calls [(''samplemode'', JStr ''off'', Some 1),
                         (''samplemode'', JStr ''off'', Some 2)] (led s1) of
           Inl e \<Rightarrow> Threw e s1
         | Inr l \<Rightarrow> Returned (s1\<lparr>led := l\<rparr>))"

text \<open>
  \<^verbatim>\<open>MC2000.init\<close> with both libraries present, up to \<^verbatim>\<open>buildComponents\<close>: all LEDs of
  \<^verbatim>\<open>MC2000.leds\<close> are switched on through \<^verbatim>\<open>bulk\<close>, then the components are built.
\<close>

definition MC2000_init :: "shift_state \<Rightarrow> shift_state outcome" where
  "MC2000_init s =
     (case LedManager_bulk (map (\<lambda>(name, c). (name, JStr ''on'')) leds) (led s) of
        Inl e \<Rightarrow> Threw e s
      | Inr l \<Rightarrow> buildComponents (s\<lparr>led := l\<rparr>))"

text \<open>
  The script as loaded (shift neither held nor locked, no decks, nothing sent), and the
  state \<^verbatim>\<open>MC2000.init\<close> has reached when \<^verbatim>\<open>buildComponents\<close> returns.
\<close>

definition shift_loaded :: shift_state where
  "shift_loaded =
     \<lparr>shiftHeld = False, shiftLock = False, decks = None, led = led_init, dispatched = []\<rparr>"

definition shift_init :: shift_state where
  "shift_init = state_of (MC2000_init shift_loaded)"

text \<open>
  The handler the shift state selects, and the bookkeeping of the layer: both decks are
  as built, with the effective shift applied.
\<close>

definition selected :: "bool \<Rightarrow> binding" where
  "selected shifted = (if shifted then ShiftedInput else NormalInput)"

definition shiftSettled :: "shift_state \<Rightarrow> bool" where
  "shiftSettled s =
     (decks s = Some [(''[Channel1]'', applyShiftState (isShiftActive s) newDeck),
                      (''[Channel2]'', applyShiftState (isShiftActive s) newDeck)])"

text \<open>The events that can change the shift state: the shift and the monitor button.\<close>

fun changesShift :: "shift_event \<Rightarrow> bool" where
  "changesShift (ToggleShift v) = True"
| "changesShift (PflButton v grp) = True"
| "changesShift ev = False"

text \<open>
  The controls of a deck that have both a normal and a shifted handler: ten of the
  listed components and the four hotcue buttons.
\<close>

definition modeSwitching :: "control list" where
  "modeSwitching =
     map Component
       [''cue'', ''keylock'', ''loadTrackBtn'', ''pitchBendUpBtn'', ''pitchBendDownBtn'',
        ''loopInBtn'', ''loopOutBtn'', ''loopHalveBtn'', ''loopDoubleBtn'', ''reloopExitBtn'']
     @ map HotcueButton [0, 1, 2, 3]"

text \<open>
  The MIDI number of the pad of a hotcue button, as \<^verbatim>\<open>mapHotcue\<close> reads it backwards;
  an index without a button gets 0, a number \<^verbatim>\<open>mapHotcue\<close> maps to no hotcue.
\<close>

definition padNumber :: "nat \<Rightarrow> int" where
  "padNumber i =
     (if i = 0 then 0x17 else if i = 1 then 0x18 else if i = 2 then 0x19
      else if i = 3 then 0x20 else 0)"

text \<open>
  The input event of a control: the cue and sync buttons re-apply the shift state first,
  a hotcue button is reached through its pad, the others through their wrapper.
\<close>

fun buttonEvent :: "control \<Rightarrow> int \<Rightarrow> string \<Rightarrow> shift_event" where
  "buttonEvent (Component name) v grp =
     (if name = ''cue'' then CueButton v grp
      else if name = ''sync'' then SyncButton v grp
      else DirectButton name v grp)"
| "buttonEvent (HotcueButton i) v grp = HotcuePad (padNumber i) v grp"

section \<open>Properties\<close>

subsection \<open>Decoding of the jog value\<close>

text \<open>
  C1. For every raw value \<open>v\<close> in \<open>[0,127]\<close> the movement computed by the jog handlers is
  \<open>((v - center + 64) mod 128) - 64\<close> with \<open>center = 0x40\<close>. The claimed range
  \<open>(-64, 64]\<close> does not hold: the raw value \<open>0\<close> decodes to \<open>-64\<close>, which the guard
  \<^verbatim>\<open>movement < -64\<close> leaves alone.
\<close>

theorem jogMovement_raw0_counterexample:
  "(0::int) \<le> 0 \<and> (0::int) \<le> 127 \<and> jogMovement 0 = - 64 \<and>
   \<not> (- 64 < jogMovement 0 \<and> jogMovement 0 \<le> 64)"
  by (simp add: jogMovement_def jogCenter_def)

text \<open>
  C1, amended. For every raw value \<open>v\<close> in \<open>[0,127]\<close> the movement equals
  \<open>((v - center + 64) mod 128) - 64\<close> and lies in \<open>[-64, 64)\<close>.
\<close>

theorem jogMovement_decodes:
  assumes "0 \<le> v" and "v \<le> 127"
  shows "jogMovement v = ((v - jogCenter + 64) mod 128) - 64
         \<and> - 64 \<le> jogMovement v \<and> jogMovement v < 64"
  using assms by (simp add: jogMovement_def jogCenter_def Let_def)

theorem jogMovement_decodes_witness:
  "(0::int) \<le> 127 \<and> (127::int) \<le> 127
   \<and> jogMovement 127 = ((127 - jogCenter + 64) mod 128) - 64
   \<and> - 64 \<le> jogMovement 127 \<and> jogMovement 127 < 64 \<and> jogMovement 127 = 63"
  using jogMovement_decodes [of 127] by (simp add: jogMovement_def jogCenter_def)

subsection \<open>Normalisation of LED statuses\<close>

text \<open>
  C10. \<^verbatim>\<open>normalize\<close> is total and returns one of three bytes: \<open>0x4B\<close> (OFF) exactly for
  \<open>0\<close>, \<open>false\<close> and \<open>'off'\<close>, \<open>0x4C\<close> (BLINK) exactly for \<open>2\<close> and \<open>'blink'\<close>, and
  \<open>0x4A\<close> (ON) for every other value, so an unrecognised status such as \<open>3\<close> or an
  arbitrary string lights the LED.
\<close>

theorem normalize_three_bytes:
  "normalize_led s \<in> {0x4B, 0x4C, 0x4A}
   \<and> (normalize_led s = 0x4B) = (s = JNum 0 \<or> s = JBool False \<or> s = JStr ''off'')
   \<and> (normalize_led s = 0x4C) = (s = JNum 2 \<or> s = JStr ''blink'')
   \<and> (normalize_led s = 0x4A) =
       (s \<noteq> JNum 0 \<and> s \<noteq> JBool False \<and> s \<noteq> JStr ''off'' \<and> s \<noteq> JNum 2 \<and> s \<noteq> JStr ''blink'')
   \<and> normalize_led (JNum 3) = 0x4A \<and> normalize_led (JStr ''purple'') = 0x4A"
  by (simp add: normalize_led_def LED_STATE_OFF_def LED_STATE_ON_def LED_STATE_BLINK_def)

theorem normalize_three_bytes_witness:
  "normalize_led (JStr ''on'') = 0x4A \<and> normalize_led JUndefined = 0x4A
   \<and> normalize_led (JNum (1 / 2)) = 0x4A \<and> normalize_led (JBool False) = 0x4B"
  using normalize_three_bytes [of "JStr ''on''"] normalize_three_bytes [of JUndefined]
    normalize_three_bytes [of "JNum (1 / 2)"] normalize_three_bytes [of "JBool False"]
  by simp


subsection \<open>The LED manager: cache keys\<close>

text \<open>
  The cache key is the decimal deck number, a bar and the decimal code. Decimal printing
  is injective and never prints a bar, so two keys are equal only for equal pairs.
\<close>

declare show_nat.simps [simp del]

lemma digit_char_inj: "a < 10 \<Longrightarrow> b < 10 \<Longrightarrow> digit_char a = digit_char b \<Longrightarrow> a = b"
  by (simp add: digit_char_def char_of_eq_iff take_bit_eq_mod)

lemma digit_char_not_bar: "a < 10 \<Longrightarrow> digit_char a \<noteq> CHR ''|''"
proof
  assume a: "a < 10" and "digit_char a = CHR ''|''"
  then have "of_char (digit_char a) = (of_char (CHR ''|'') :: nat)" by simp
  with a show False by (simp add: digit_char_def)
qed

lemma show_nat_nonempty: "show_nat n \<noteq> []"
  by (subst show_nat.simps) simp

lemma show_nat_inj: "show_nat n = show_nat m \<Longrightarrow> n = m"
proof (induction n arbitrary: m rule: show_nat.induct)
  case (1 n)
  show ?case
  proof (cases "n < 10")
    case True
    note n = True
    show ?thesis
    proof (cases "m < 10")
      case True
      with n "1.prems" show ?thesis
        by (simp add: show_nat.simps [of n] show_nat.simps [of m] digit_char_inj)
    next
      case False
      with n "1.prems" show_nat_nonempty [of "m div 10"] show ?thesis
        by (simp add: show_nat.simps [of n] show_nat.simps [of m])
    qed
  next
    case False
    note n = False
    show ?thesis
    proof (cases "m < 10")
      case True
      with n "1.prems" show_nat_nonempty [of "n div 10"] show ?thesis
        by (simp add: show_nat.simps [of n] show_nat.simps [of m])
    next
      case False
      with n "1.prems" have e: "show_nat (n div 10) = show_nat (m div 10)"
        and d: "digit_char (n mod 10) = digit_char (m mod 10)"
        by (simp_all add: show_nat.simps [of n] show_nat.simps [of m])
      from "1.IH" [OF n e] have "n div 10 = m div 10" .
      moreover from d have "n mod 10 = m mod 10"
        by (intro digit_char_inj) simp_all
      ultimately show ?thesis
        by (metis div_mult_mod_eq)
    qed
  qed
qed

lemma show_nat_no_bar: "CHR ''|'' \<notin> set (show_nat n)"
proof (induction n rule: show_nat.induct)
  case (1 n)
  then show ?case
    by (subst show_nat.simps)
      (use digit_char_not_bar [of n] digit_char_not_bar [of "n mod 10"] in auto)
qed

lemma split_at_sep:
  "x \<notin> set a \<Longrightarrow> x \<notin> set a' \<Longrightarrow> a @ x # b = a' @ x # b' \<Longrightarrow> a = a' \<and> b = b'"
proof (induction a arbitrary: a')
  case Nil
  then show ?case by (cases a') auto
next
  case (Cons y a)
  then show ?case by (cases a') auto
qed

lemma key_inj: "(key d' (Some c') = key d (Some c)) = (d' = d \<and> c' = c)"
proof
  assume "key d' (Some c') = key d (Some c)"
  then have "show_nat d' @ CHR ''|'' # show_nat c' = show_nat d @ CHR ''|'' # show_nat c"
    by (simp add: key_def)
  then have "show_nat d' = show_nat d \<and> show_nat c' = show_nat c"
    by (intro split_at_sep [where x = "CHR ''|''"]) (simp_all add: show_nat_no_bar)
  then show "d' = d \<and> c' = c"
    by (simp add: show_nat_inj)
qed simp

lemma send_other_key: "k \<noteq> key d c \<Longrightarrow> cache (send d c b s) k = cache s k"
  by (simp add: send_def Let_def)

lemma send_cache: "cache (send d c b s) (key d c) = Some b"
  by (simp add: send_def Let_def)

lemma send_hit: "cache s (key d c) = Some b \<Longrightarrow> send d c b s = s"
  by (simp add: send_def)

lemma send_miss:
  "cache s (key d c) \<noteq> Some b \<Longrightarrow>
   midi_out (send d c b s) = midi_out s @ [(0xB0 + (int d - 1), b, c)]"
  by (simp add: send_def Let_def)

lemma set_own_target:
  "LED_MAP name = OwnEntry df \<Longrightarrow> d \<noteq> 0 \<Longrightarrow>
   LedManager_set name st (Some d) s = Inr (send d (Some (code df)) (normalize_led st) s)"
  by (simp add: LedManager_set_def targetDecks_def sendEach_def)

lemma LED_MAP_play: "LED_MAP ''play'' = OwnEntry \<lparr>code = 39, decks = [1, 2]\<rparr>"
  by (simp add: LED_MAP_def LED_MAP_own_def leds_def decksFor_def last2_def)

lemma key_1_39: "key 1 (Some 39) = ''1|39''" "key (Suc 0) (Some 39) = ''1|39''"
  by code_simp+

subsection \<open>The LED manager: suppression of repeated writes\<close>

text \<open>
  C2. For a name of the LED table and a target deck, two consecutive calls of
  \<^verbatim>\<open>LedManager.set\<close> with statuses of the same byte are claimed to issue exactly one
  \<^verbatim>\<open>midi.sendShortMsg\<close>. That fails when the cache already holds the byte for the deck
  and code: after the play LED of deck 1 has been lit, two more calls lighting it send
  nothing.
\<close>

theorem set_already_lit_counterexample:
  "LED_MAP ''play'' = OwnEntry \<lparr>code = 39, decks = [1, 2]\<rparr>
   \<and> normalize_led (JStr ''on'') = 0x4A
   \<and> LedManager_set ''play'' (JStr ''on'') (Some 1) led_init = Inr led_play_lit
   \<and> set_calls [(''play'', JStr ''on'', Some 1), (''play'', JStr ''on'', Some 1)] led_play_lit
       = Inr led_play_lit
   \<and> midi_out led_play_lit = [(0xB0, 0x4A, Some 39)]"
  by (simp add: set_own_target [OF LED_MAP_play] LED_MAP_play normalize_led_def
      LED_STATE_ON_def send_def key_1_39 led_init_def led_play_lit_def fun_eq_iff)

text \<open>
  C2, amended. For a name of the LED table, a target deck \<open>d\<close> and statuses of the same
  byte \<open>b\<close>, two consecutive calls of \<^verbatim>\<open>LedManager.set\<close> issue exactly one
  \<^verbatim>\<open>midi.sendShortMsg\<close> when the cache did not hold \<open>b\<close> for the deck and code before
  the first call, and none when it did; a following call with a status of another byte
  issues a write. Only the cache entry of the key of the deck and code changes, and that
  key belongs to no other pair of deck and code.
\<close>

theorem set_dedup:
  assumes "LED_MAP name = OwnEntry df" and "d \<noteq> 0"
    and "normalize_led st1 = b" and "normalize_led st2 = b"
    and "normalize_led st3 = b'" and "b' \<noteq> b"
  shows "\<exists>s2 s3.
      set_calls [(name, st1, Some d), (name, st2, Some d)] s = Inr s2
    \<and> midi_out s2 = midi_out s @
        (if cache s (key d (Some (code df))) = Some b then []
         else [(0xB0 + (int d - 1), b, Some (code df))])
    \<and> set_calls [(name, st3, Some d)] s2 = Inr s3
    \<and> midi_out s3 = midi_out s2 @ [(0xB0 + (int d - 1), b', Some (code df))]
    \<and> (\<forall>k. k \<noteq> key d (Some (code df)) \<longrightarrow> cache s3 k = cache s k)
    \<and> (\<forall>d' c'. (key d' (Some c') = key d (Some (code df))) = (d' = d \<and> c' = code df))"
proof -
  let ?c = "Some (code df)"
  let ?s1 = "send d ?c b s"
  let ?s3 = "send d ?c b' ?s1"
  have c1: "cache ?s1 (key d ?c) = Some b" by (rule send_cache)
  have s2: "send d ?c b ?s1 = ?s1" using c1 by (rule send_hit)
  have run2: "set_calls [(name, st1, Some d), (name, st2, Some d)] s = Inr ?s1"
    using assms s2 by (simp add: set_own_target)
  have out1: "midi_out ?s1 = midi_out s @
        (if cache s (key d ?c) = Some b then [] else [(0xB0 + (int d - 1), b, ?c)])"
    by (simp add: send_hit send_miss)
  have run3: "set_calls [(name, st3, Some d)] ?s1 = Inr ?s3"
    using assms by (simp add: set_own_target)
  have "cache ?s1 (key d ?c) \<noteq> Some b'" using c1 assms(6) by simp
  then have out3: "midi_out ?s3 = midi_out ?s1 @ [(0xB0 + (int d - 1), b', ?c)]"
    by (rule send_miss)
  have others: "\<forall>k. k \<noteq> key d ?c \<longrightarrow> cache ?s3 k = cache s k"
    by (simp add: send_other_key)
  show ?thesis
    using run2 out1 run3 out3 others key_inj by blast
qed

theorem set_dedup_witness:
  "set_calls [(''play'', JStr ''on'', Some 1), (''play'', JNum 1, Some 1)] led_init
     = Inr led_play_lit
   \<and> midi_out led_play_lit = [(0xB0, 0x4A, Some 39)]
   \<and> midi_out (projr (set_calls [(''play'', JStr ''off'', Some 1)] led_play_lit))
     = [(0xB0, 0x4A, Some 39), (0xB0, 0x4B, Some 39)]"
proof -
  have n: "normalize_led (JStr ''on'') = 0x4A" "normalize_led (JNum 1) = 0x4A"
    "normalize_led (JStr ''off'') = 0x4B"
    by (simp_all add: normalize_led_def LED_STATE_ON_def LED_STATE_OFF_def)
  from set_dedup [OF LED_MAP_play, of 1 "JStr ''on''" "0x4A" "JNum 1" "JStr ''off''" "0x4B" led_init] n
  obtain s2 s3 where
    a: "set_calls [(''play'', JStr ''on'', Some 1), (''play'', JNum 1, Some 1)] led_init = Inr s2"
    and b: "midi_out s2 = [(0xB0, 0x4A, Some 39)]"
    and c: "set_calls [(''play'', JStr ''off'', Some 1)] s2 = Inr s3"
    and d: "midi_out s3 = midi_out s2 @ [(0xB0, 0x4B, Some 39)]"
    by (auto simp: led_init_def)
  have e: "set_calls [(''play'', JStr ''on'', Some 1), (''play'', JNum 1, Some 1)] led_init
     = Inr led_play_lit"
    by (simp add: set_own_target [OF LED_MAP_play] n send_def key_1_39 led_init_def
        led_play_lit_def fun_eq_iff)
  with a have "s2 = led_play_lit" by simp
  with b c d e show ?thesis by simp
qed

subsection \<open>The LED manager: names outside the table\<close>

text \<open>
  For a name that is neither in the table nor a property of \<^verbatim>\<open>Object.prototype\<close>,
  \<^verbatim>\<open>set\<close> and \<^verbatim>\<open>setRaw\<close> return at \<^verbatim>\<open>if (!def) return;\<close>.
\<close>

lemma set_unknown_name_noop:
  "LED_MAP name = NoProperty \<Longrightarrow>
   LedManager_set name st opts s = Inr s \<and> LedManager_setRaw name b opts s = Inr s"
  by (simp add: LedManager_set_def LedManager_setRaw_def)

lemma LED_MAP_constructor: "LED_MAP ''constructor'' = InheritedProperty"
  by (simp add: LED_MAP_def LED_MAP_own_def leds_def objectPrototypeNames_def)

text \<open>
  C9. For every name that is not in the LED table, \<^verbatim>\<open>LedManager.set\<close> and
  \<^verbatim>\<open>LedManager.setRaw\<close> should be a no-op that does not throw. The name
  \<^verbatim>\<open>constructor\<close> is not in the table, yet \<^verbatim>\<open>LED_MAP['constructor']\<close> is the inherited
  \<^verbatim>\<open>Object\<close> function: the guard \<^verbatim>\<open>if (!def) return;\<close> lets it pass. Without a target
  deck both operations throw a \<^verbatim>\<open>TypeError\<close>; with a target deck \<^verbatim>\<open>set\<close> writes to
  the device with an undefined code and fills the cache.
\<close>

theorem set_inherited_name_not_noop:
  "''constructor'' \<notin> set (map fst leds)
   \<and> LedManager_set ''constructor'' (JStr ''on'') None led_init = Inl TypeError
   \<and> LedManager_setRaw ''constructor'' 0x50 None led_init = Inl TypeError
   \<and> LedManager_set ''constructor'' (JStr ''on'') (Some 1) led_init
       = Inr (send 1 None 0x4A led_init)
   \<and> midi_out (send 1 None 0x4A led_init) = [(0xB0, 0x4A, None)]
   \<and> cache (send 1 None 0x4A led_init) (key 1 None) = Some 0x4A"
  by (simp add: LedManager_set_def LedManager_setRaw_def LED_MAP_constructor targetDecks_def
      sendEach_def normalize_led_def LED_STATE_ON_def send_def led_init_def leds_def Let_def)


subsection \<open>Jog wheel: facts about the building blocks\<close>

lemmas engine_defs = engine_getValue_def engine_setValue_def engine_scratchEnable_def
  engine_scratchTick_def engine_scratchDisable_def engine_beginTimer_def engine_stopTimer_def

lemma jogCountTick_fields [simp]:
  "jogTickCount (jogCountTick now d s) =
     (jogTickCount s)(d := (if now - jogLastTickTime s d > 150 then 0 else jogTickCount s d) + 1)"
  "jogLastTickTime (jogCountTick now d s) = (jogLastTickTime s)(d := now)"
  "jogScratchActive (jogCountTick now d s) = jogScratchActive s"
  "jogReleaseTimer (jogCountTick now d s) = jogReleaseTimer s"
  "deckScratchMode (jogCountTick now d s) = deckScratchMode s"
  "controls (jogCountTick now d s) = controls s"
  "timers (jogCountTick now d s) = timers s"
  "next_timer (jogCountTick now d s) = next_timer s"
  "calls (jogCountTick now d s) = calls s"
  by (simp_all add: jogCountTick_def Let_def fun_eq_iff)

lemma deckHas_channels [simp]: "deckHas ''[Channel1]''" "deckHas ''[Channel2]''"
  by (simp_all add: deckHas_def)

lemma speedFactor_bounds: "1 \<le> speedFactor n \<and> speedFactor n \<le> jogMaxScaling"
  unfolding speedFactor_def jogMaxScaling_def by (simp add: min_def)

lemma speedFactor_mono: "n \<le> m \<Longrightarrow> speedFactor n \<le> speedFactor m"
  by (simp add: speedFactor_def min_le_iff_disj divide_right_mono)

lemma speedFactor_cap: "3 \<le> n \<Longrightarrow> speedFactor n = jogMaxScaling"
proof -
  assume "3 \<le> n"
  then have "(3::rat) \<le> of_nat n" by (metis of_nat_numeral of_nat_le_iff)
  then show ?thesis by (simp add: speedFactor_def jogMaxScaling_def)
qed

lemma speedFactor_below_cap: "n < 3 \<Longrightarrow> speedFactor n = 1 + of_nat n / 10"
proof -
  assume "n < 3"
  then have "n \<le> 2" by simp
  then have "of_nat n \<le> (of_nat 2 :: rat)" by (simp only: of_nat_le_iff)
  then have "of_nat n \<le> (2::rat)" by simp
  then show ?thesis by (simp add: speedFactor_def jogMaxScaling_def)
qed

lemma jogTouch_counts:
  "jogMovement v \<noteq> 0 \<Longrightarrow>
   jogTickCount (state_of (jogTouch now v grp s)) (deckIndex grp)
     = (if now - jogLastTickTime s (deckIndex grp) > 150 then 0
        else jogTickCount s (deckIndex grp)) + 1
   \<and> jogLastTickTime (state_of (jogTouch now v grp s)) (deckIndex grp) = now"
  by (auto simp: jogTouch_def Let_def andThen_def scratchStart_def setScratchMode_def
      rearmRelease_def scrub_def engine_defs split: option.splits)

lemma jogTouch_scratch_tick:
  "jogMovement v \<noteq> 0 \<Longrightarrow> engine_getValue s grp ''play'' = 1 \<Longrightarrow>
   jogScratchActive s (deckIndex grp) \<Longrightarrow>
   \<exists>s'. jogTouch now v grp s = Returned s' \<and>
     calls s' = calls s
       @ [ScratchTick (deckIndex grp)
            (of_int (jogMovement v) * speedFactor (jogTickCount s' (deckIndex grp)))]
       @ (case jogReleaseTimer s (deckIndex grp) of None \<Rightarrow> [] | Some t \<Rightarrow> [StopTimer t])
       @ [BeginTimer (next_timer s) 50]"
  by (auto simp: jogTouch_def Let_def andThen_def rearmRelease_def engine_defs
      split: option.splits)

subsection \<open>Jog wheel: entering scratch mode\<close>

text \<open>
  C4. For each of the two units, a rotation event of \<^verbatim>\<open>MC2000.jogTouch\<close> with a
  non-zero decoded delta that arrives while the deck plays and scratch is not active
  takes the unit from idle to scratching: it calls \<^verbatim>\<open>engine.scratchEnable\<close> with 96
  ticks per revolution, 33 + 1/3 rpm, alpha 1/16 and beta (1/16)/64, sets the unit's
  scratch-active flag, and sets \<^verbatim>\<open>slip_enabled\<close> to 1 if it was not set. The calls made
  are exactly: the slip write (if any), the enable, the tick, the stop of an old release
  timer (if any) and the start of the new one.
\<close>

theorem jogTouch_starts_scratch:
  assumes "grp = ''[Channel1]'' \<or> grp = ''[Channel2]''"
    and "jogMovement v \<noteq> 0"
    and "engine_getValue s grp ''play'' = 1"
    and "\<not> jogScratchActive s (deckIndex grp)"
  shows "\<exists>s'. jogTouch now v grp s = Returned s'
    \<and> jogScratchActive s' (deckIndex grp)
    \<and> deckScratchMode s' grp
    \<and> engine_getValue s' grp ''slip_enabled'' =
        (if engine_getValue s grp ''slip_enabled'' = 0 then 1
         else engine_getValue s grp ''slip_enabled'')
    \<and> calls s' = calls s
        @ (if engine_getValue s grp ''slip_enabled'' = 0
           then [SetValue grp ''slip_enabled'' 1] else [])
        @ [ScratchEnable (deckIndex grp) 96 (33 + 1 / 3) (1 / 16) ((1 / 16) / 64),
           ScratchTick (deckIndex grp)
             (of_int (jogMovement v) * speedFactor (jogTickCount s' (deckIndex grp)))]
        @ (case jogReleaseTimer s (deckIndex grp) of None \<Rightarrow> [] | Some t \<Rightarrow> [StopTimer t])
        @ [BeginTimer (next_timer s) 50]
    \<and> jogReleaseTimer s' (deckIndex grp) = Some (next_timer s)"
  using assms
  by (auto simp: jogTouch_def Let_def andThen_def scratchStart_def setScratchMode_def
      rearmRelease_def engine_defs jogResolution_def jogRpm_def jogScratchAlpha_def
      jogScratchBeta_def split: option.splits)

theorem jogTouch_starts_scratch_witness:
  "jogMovement 65 \<noteq> 0
   \<and> engine_getValue playing1 ''[Channel1]'' ''play'' = 1
   \<and> \<not> jogScratchActive playing1 (deckIndex ''[Channel1]'')
   \<and> (\<exists>s'. jogTouch 0 65 ''[Channel1]'' playing1 = Returned s'
        \<and> jogScratchActive s' 1
        \<and> engine_getValue s' ''[Channel1]'' ''slip_enabled'' = 1
        \<and> calls s' = [SetValue ''[Channel1]'' ''slip_enabled'' 1,
                       ScratchEnable 1 96 (100 / 3) (1 / 16) (1 / 1024),
                       ScratchTick 1 (11 / 10), BeginTimer 1 50])"
proof -
  have h: "jogMovement 65 \<noteq> 0" "engine_getValue playing1 ''[Channel1]'' ''play'' = 1"
    "\<not> jogScratchActive playing1 (deckIndex ''[Channel1]'')"
    by (simp_all add: jogMovement_def jogCenter_def playing1_def mc_init_def
        engine_getValue_def deckIndex_def)
  from jogTouch_starts_scratch [OF _ h, of 0] obtain s' where
    s': "jogTouch 0 65 ''[Channel1]'' playing1 = Returned s'"
      "jogScratchActive s' (deckIndex ''[Channel1]'')"
      "engine_getValue s' ''[Channel1]'' ''slip_enabled'' =
        (if engine_getValue playing1 ''[Channel1]'' ''slip_enabled'' = 0 then 1
         else engine_getValue playing1 ''[Channel1]'' ''slip_enabled'')"
      "calls s' = calls playing1
        @ (if engine_getValue playing1 ''[Channel1]'' ''slip_enabled'' = 0
           then [SetValue ''[Channel1]'' ''slip_enabled'' 1] else [])
        @ [ScratchEnable (deckIndex ''[Channel1]'') 96 (33 + 1 / 3) (1 / 16) ((1 / 16) / 64),
           ScratchTick (deckIndex ''[Channel1]'')
             (of_int (jogMovement 65) * speedFactor (jogTickCount s' (deckIndex ''[Channel1]'')))]
        @ (case jogReleaseTimer playing1 (deckIndex ''[Channel1]'') of
             None \<Rightarrow> [] | Some t \<Rightarrow> [StopTimer t])
        @ [BeginTimer (next_timer playing1) 50]"
    by blast
  have c: "jogTickCount s' (deckIndex ''[Channel1]'') = 1"
    using jogTouch_counts [of 65 0 "''[Channel1]''" playing1] h(1) s'(1)
    by (simp add: playing1_def mc_init_def)
  have "calls s' = [SetValue ''[Channel1]'' ''slip_enabled'' 1,
                       ScratchEnable 1 96 (100 / 3) (1 / 16) (1 / 1024),
                       ScratchTick 1 (11 / 10), BeginTimer 1 50]"
    using s'(4) c
    by (simp add: playing1_def mc_init_def engine_getValue_def deckIndex_def jogMovement_def
        jogCenter_def speedFactor_def jogMaxScaling_def)
  moreover have "engine_getValue s' ''[Channel1]'' ''slip_enabled'' = 1"
    using s'(3) by (simp add: playing1_def mc_init_def engine_getValue_def)
  moreover have "jogScratchActive s' 1"
    using s'(2) by (simp add: deckIndex_def)
  ultimately show ?thesis using h s'(1) by simp
qed

subsection \<open>Jog wheel: pitch nudge of the outer wheel\<close>

text \<open>
  C8. An event of \<^verbatim>\<open>MC2000.jogWheel\<close> with a non-zero decoded delta that arrives while
  the unit's scratch-active flag is false forwards delta times \<^verbatim>\<open>MC2000.jogPitchScale\<close>
  (1/4) to the engine control \<^verbatim>\<open>jog\<close> and does nothing else: the scratch-active flag,
  the slip flag, all per-unit jog state and the timers are unchanged, and the only call
  is that write.
\<close>

theorem jogWheel_nudges:
  assumes "jogMovement v \<noteq> 0"
    and "\<not> jogScratchActive s (deckIndex grp)"
  shows "\<exists>s'. jogWheel now v grp s = Returned s'
    \<and> calls s' = calls s @ [SetValue grp ''jog'' (of_int (jogMovement v) * jogPitchScale)]
    \<and> jogPitchScale = 1 / 4
    \<and> jogScratchActive s' = jogScratchActive s
    \<and> jogReleaseTimer s' = jogReleaseTimer s
    \<and> jogLastTickTime s' = jogLastTickTime s
    \<and> jogTickCount s' = jogTickCount s
    \<and> deckScratchMode s' = deckScratchMode s
    \<and> timers s' = timers s
    \<and> next_timer s' = next_timer s
    \<and> (\<forall>g k. (g, k) \<noteq> (grp, ''jog'') \<longrightarrow> engine_getValue s' g k = engine_getValue s g k)"
  using assms
  by (simp add: jogWheel_def Let_def engine_defs jogPitchScale_def)

theorem jogWheel_nudges_witness:
  "jogMovement 0 \<noteq> 0 \<and> \<not> jogScratchActive playing1 (deckIndex ''[Channel2]'')
   \<and> (\<exists>s'. jogWheel 7 0 ''[Channel2]'' playing1 = Returned s'
        \<and> calls s' = [SetValue ''[Channel2]'' ''jog'' (- 16)]
        \<and> jogScratchActive s' = jogScratchActive playing1
        \<and> timers s' = [])"
proof -
  have h: "jogMovement 0 \<noteq> 0" "\<not> jogScratchActive playing1 (deckIndex ''[Channel2]'')"
    by (simp_all add: jogMovement_def jogCenter_def playing1_def mc_init_def)
  from jogWheel_nudges [OF h, of 7] obtain s' where
    "jogWheel 7 0 ''[Channel2]'' playing1 = Returned s'"
    "calls s' = calls playing1 @ [SetValue ''[Channel2]'' ''jog'' (of_int (jogMovement 0) * jogPitchScale)]"
    "jogScratchActive s' = jogScratchActive playing1" "timers s' = timers playing1"
    by blast
  then show ?thesis
    using h by (simp add: playing1_def mc_init_def jogMovement_def jogCenter_def jogPitchScale_def)
qed

subsection \<open>Jog wheel: the velocity factor\<close>

text \<open>
  C7. The velocity factor comes from a tick counter per unit: a tick that arrives more
  than 150 ms after the previous one resets the counter to zero before counting itself.
  The factor is \<open>min (1 + count / 10) 1.25\<close>: it starts from 1, grows with consecutive
  rapid ticks and is capped at \<^verbatim>\<open>MC2000.jogMaxScaling = 1.25\<close>, which it reaches at the
  third tick. In scratch mode the tick forwarded to the engine is the delta times this
  factor.
\<close>

theorem speedFactor_ramp:
  "(jogMovement v \<noteq> 0 \<longrightarrow>
      jogTickCount (state_of (jogTouch now v grp s)) (deckIndex grp)
        = (if now - jogLastTickTime s (deckIndex grp) > 150 then 0
           else jogTickCount s (deckIndex grp)) + 1
      \<and> jogLastTickTime (state_of (jogTouch now v grp s)) (deckIndex grp) = now)
   \<and> (jogMovement v \<noteq> 0 \<and> engine_getValue s grp ''play'' = 1
        \<and> jogScratchActive s (deckIndex grp) \<longrightarrow>
      ScratchTick (deckIndex grp)
        (of_int (jogMovement v)
          * speedFactor (jogTickCount (state_of (jogTouch now v grp s)) (deckIndex grp)))
        \<in> set (calls (state_of (jogTouch now v grp s))))
   \<and> speedFactor n = min (1 + of_nat n / 10) jogMaxScaling
   \<and> jogMaxScaling = 5 / 4
   \<and> speedFactor 0 = 1
   \<and> 1 \<le> speedFactor n \<and> speedFactor n \<le> jogMaxScaling
   \<and> (n \<le> m \<longrightarrow> speedFactor n \<le> speedFactor m)
   \<and> (n < 3 \<longrightarrow> speedFactor n = 1 + of_nat n / 10)
   \<and> (3 \<le> n \<longrightarrow> speedFactor n = jogMaxScaling)"
proof -
  have a: "jogMovement v \<noteq> 0 \<longrightarrow>
      jogTickCount (state_of (jogTouch now v grp s)) (deckIndex grp)
        = (if now - jogLastTickTime s (deckIndex grp) > 150 then 0
           else jogTickCount s (deckIndex grp)) + 1
      \<and> jogLastTickTime (state_of (jogTouch now v grp s)) (deckIndex grp) = now"
    using jogTouch_counts by blast
  have b: "jogMovement v \<noteq> 0 \<and> engine_getValue s grp ''play'' = 1
        \<and> jogScratchActive s (deckIndex grp) \<longrightarrow>
      ScratchTick (deckIndex grp)
        (of_int (jogMovement v)
          * speedFactor (jogTickCount (state_of (jogTouch now v grp s)) (deckIndex grp)))
        \<in> set (calls (state_of (jogTouch now v grp s)))"
  proof (intro impI)
    assume h: "jogMovement v \<noteq> 0 \<and> engine_getValue s grp ''play'' = 1
        \<and> jogScratchActive s (deckIndex grp)"
    then obtain s' where "jogTouch now v grp s = Returned s'"
      and "calls s' = calls s
       @ [ScratchTick (deckIndex grp)
            (of_int (jogMovement v) * speedFactor (jogTickCount s' (deckIndex grp)))]
       @ (case jogReleaseTimer s (deckIndex grp) of None \<Rightarrow> [] | Some t \<Rightarrow> [StopTimer t])
       @ [BeginTimer (next_timer s) 50]"
      using jogTouch_scratch_tick [of v s grp now] by blast
    then show "ScratchTick (deckIndex grp)
        (of_int (jogMovement v)
          * speedFactor (jogTickCount (state_of (jogTouch now v grp s)) (deckIndex grp)))
        \<in> set (calls (state_of (jogTouch now v grp s)))"
      by simp
  qed
  have c: "speedFactor 0 = 1" "jogMaxScaling = 5 / 4"
    by (simp_all add: speedFactor_def jogMaxScaling_def)
  show ?thesis
    using a b c speedFactor_bounds [of n] speedFactor_mono [of n m] speedFactor_cap [of n]
      speedFactor_below_cap [of n]
    by (simp add: speedFactor_def)
qed

theorem speedFactor_ramp_witness:
  "jogMovement 65 \<noteq> 0
   \<and> jogTickCount (state_of (jogTouch 1000 65 ''[Channel1]'' paused1)) (deckIndex ''[Channel1]'') = 1
   \<and> speedFactor 1 = 11 / 10 \<and> speedFactor 2 = 6 / 5 \<and> speedFactor 3 = 5 / 4
   \<and> speedFactor 7 = 5 / 4 \<and> speedFactor 2 \<le> speedFactor 3"
proof -
  have h: "jogMovement 65 \<noteq> 0" by (simp add: jogMovement_def jogCenter_def)
  have "jogTickCount (state_of (jogTouch 1000 65 ''[Channel1]'' paused1)) (deckIndex ''[Channel1]'') = 1"
    using speedFactor_ramp [of 65 1000 "''[Channel1]''" paused1 0 0] h
    by (simp add: paused1_def mc_init_def)
  moreover have "speedFactor 1 = 11 / 10" "speedFactor 2 = 6 / 5"
    using speedFactor_ramp [of 65 1000 "''[Channel1]''" paused1 1 1]
      speedFactor_ramp [of 65 1000 "''[Channel1]''" paused1 2 3]
    by simp_all
  moreover have "speedFactor 3 = 5 / 4" "speedFactor 7 = 5 / 4" "speedFactor 2 \<le> speedFactor 3"
    using speedFactor_ramp [of 65 1000 "''[Channel1]''" paused1 3 3]
      speedFactor_ramp [of 65 1000 "''[Channel1]''" paused1 7 7]
      speedFactor_ramp [of 65 1000 "''[Channel1]''" paused1 2 3]
    by simp_all
  ultimately show ?thesis using h by simp
qed

subsection \<open>Jog wheel: scrubbing stays inside the track\<close>

lemma scrubPosition_range: "0 \<le> scrubPosition p m e \<and> scrubPosition p m e \<le> 1"
  by (simp add: scrubPosition_def Let_def)

lemma scrubPosition_clamp:
  "scrubPosition p m e =
     (if p + of_int m * e * jogScrubScaling < 0 then 0
      else if p + of_int m * e * jogScrubScaling > 1 then 1
      else p + of_int m * e * jogScrubScaling)"
  by (simp add: scrubPosition_def Let_def)

lemma extendsOk_refl: "extendsOk s s"
  by (simp add: extendsOk_def)

lemma extendsOk_trans: "extendsOk s s' \<Longrightarrow> extendsOk s' s'' \<Longrightarrow> extendsOk s s''"
  by (auto simp: extendsOk_def)

lemma extendsOk_jogRelease: "extendsOk s (state_of (jogRelease d g s))"
  by (simp add: extendsOk_def jogRelease_def Let_def andThen_def setScratchMode_def engine_defs)

lemma extendsOk_timerFired: "extendsOk s (state_of (timerFired t s))"
proof (cases "find (\<lambda>p. fst p = t) (timers s)")
  case None
  then show ?thesis by (simp add: timerFired_def extendsOk_refl)
next
  case (Some p)
  obtain t' due d g where p: "p = (t', due, JogRelease d g)"
    by (cases p, rename_tac a b c, case_tac c) auto
  have "extendsOk (s\<lparr>timers := filter (\<lambda>p. fst p \<noteq> t) (timers s)\<rparr>)
     (state_of (jogRelease d g (s\<lparr>timers := filter (\<lambda>p. fst p \<noteq> t) (timers s)\<rparr>)))"
    by (rule extendsOk_jogRelease)
  then show ?thesis
    using Some p by (simp add: timerFired_def extendsOk_def)
qed

lemma extendsOk_fold:
  "extendsOk s (foldl (\<lambda>s' p. state_of (timerFired (fst p) s')) s ps)"
proof (induction ps arbitrary: s)
  case Nil
  show ?case by (simp add: extendsOk_refl)
next
  case (Cons p ps)
  show ?case
    using extendsOk_trans [OF extendsOk_timerFired Cons.IH] by simp
qed

lemma extendsOk_fireDue: "extendsOk s (fireDue now s)"
  by (simp add: fireDue_def extendsOk_fold)

lemma extendsOk_jogTouch: "extendsOk s (state_of (jogTouch now v grp s))"
  by (auto simp: extendsOk_def jogTouch_def Let_def andThen_def scratchStart_def
      setScratchMode_def rearmRelease_def scrub_def engine_defs scrubPosition_range
      split: option.splits)

lemma extendsOk_jogWheel: "extendsOk s (state_of (jogWheel now v grp s))"
  using extendsOk_jogTouch [of s now v grp]
  by (auto simp: jogWheel_def Let_def engine_defs extendsOk_refl)
    (simp add: extendsOk_def)

lemma extendsOk_handleEvent: "extendsOk s (state_of (handleEvent now ev s))"
  by (cases ev) (simp_all add: extendsOk_jogTouch extendsOk_jogWheel, simp add: extendsOk_def)

lemma extendsOk_runEvents: "extendsOk s (runEvents evs s)"
proof (induction evs arbitrary: s)
  case Nil
  show ?case by (simp add: extendsOk_refl)
next
  case (Cons e evs)
  obtain now ev where e: "e = (now, ev)" by (cases e)
  have "extendsOk s (state_of (handleEvent now ev (fireDue now s)))"
    using extendsOk_fireDue extendsOk_handleEvent extendsOk_trans by blast
  then show ?case
    using Cons.IH extendsOk_trans e by auto
qed

lemma jogTouch_scrubs:
  "jogMovement v \<noteq> 0 \<Longrightarrow> engine_getValue s grp ''play'' \<noteq> 1 \<Longrightarrow>
   \<exists>s'. jogTouch now v grp s = Returned s' \<and>
     calls s' = calls s @ [SetValue grp ''playposition''
       (scrubPosition (engine_getValue s grp ''playposition'') (jogMovement v)
          (if jogTickCount s' (deckIndex grp) > 3
           then speedFactor (jogTickCount s' (deckIndex grp)) else 1))]"
  by (simp add: jogTouch_def Let_def scrub_def engine_defs)

text \<open>
  C6. Whatever events are processed, every play position written to the engine lies in
  \<open>[0,1]\<close>. A scrub event (non-zero delta while the deck does not play) writes the
  position read from the engine plus the scaled delta, clamped: exactly 0 when the sum is
  below 0, exactly 1 when it is above 1.
\<close>

theorem scrub_clamps:
  "list_all positionWriteOk (drop (length (calls s)) (calls (runEvents evs s)))
   \<and> (jogMovement v \<noteq> 0 \<and> engine_getValue s grp ''play'' \<noteq> 1 \<longrightarrow>
       (\<exists>s'. jogTouch now v grp s = Returned s' \<and>
          calls s' = calls s @ [SetValue grp ''playposition''
            (scrubPosition (engine_getValue s grp ''playposition'') (jogMovement v)
               (if jogTickCount s' (deckIndex grp) > 3
                then speedFactor (jogTickCount s' (deckIndex grp)) else 1))]))
   \<and> 0 \<le> scrubPosition p m e \<and> scrubPosition p m e \<le> 1
   \<and> scrubPosition p m e =
       (if p + of_int m * e * jogScrubScaling < 0 then 0
        else if p + of_int m * e * jogScrubScaling > 1 then 1
        else p + of_int m * e * jogScrubScaling)"
proof -
  obtain new where "calls (runEvents evs s) = calls s @ new" and "list_all positionWriteOk new"
    using extendsOk_runEvents [of s evs] by (auto simp: extendsOk_def)
  then have a: "list_all positionWriteOk (drop (length (calls s)) (calls (runEvents evs s)))"
    by simp
  show ?thesis
    using a jogTouch_scrubs [of v s grp now] scrubPosition_range [of p m e]
      scrubPosition_clamp [of p m e]
    by blast
qed

theorem scrub_clamps_witness:
  "jogMovement 0 \<noteq> 0 \<and> engine_getValue paused1 ''[Channel1]'' ''play'' \<noteq> 1
   \<and> (\<exists>s'. jogTouch 0 0 ''[Channel1]'' paused1 = Returned s'
        \<and> calls s' = [SetValue ''[Channel1]'' ''playposition'' 0])
   \<and> scrubPosition (1 / 20000) (- 64) 1 = 0
   \<and> scrubPosition (9999 / 10000) 63 1 = 1
   \<and> list_all positionWriteOk
       (calls (runEvents [(0, Touch 0 ''[Channel1]''), (10, Touch 127 ''[Channel1]'')] paused1))"
proof -
  have h: "jogMovement 0 \<noteq> 0" "engine_getValue paused1 ''[Channel1]'' ''play'' \<noteq> 1"
    by (simp_all add: jogMovement_def jogCenter_def paused1_def mc_init_def engine_getValue_def)
  have m: "jogMovement 0 = - 64" by (simp add: jogMovement_def jogCenter_def)
  from scrub_clamps [of paused1 "[]" 0 "''[Channel1]''" 0 0 0 0] h
  obtain s' where s': "jogTouch 0 0 ''[Channel1]'' paused1 = Returned s'"
    "calls s' = calls paused1 @ [SetValue ''[Channel1]'' ''playposition''
            (scrubPosition (engine_getValue paused1 ''[Channel1]'' ''playposition'') (jogMovement 0)
               (if jogTickCount s' (deckIndex ''[Channel1]'') > 3
                then speedFactor (jogTickCount s' (deckIndex ''[Channel1]'')) else 1))]"
    by blast
  have c: "jogTickCount s' (deckIndex ''[Channel1]'') = 1"
    using jogTouch_counts [of 0 0 "''[Channel1]''" paused1] h(1) s'(1)
    by (simp add: paused1_def mc_init_def)
  have p: "scrubPosition (1 / 20000) (- 64) 1 = 0" "scrubPosition (9999 / 10000) 63 1 = 1"
    using scrub_clamps [of paused1 "[]" 0 "''[Channel1]''" 0 "1 / 20000" "- 64" 1]
      scrub_clamps [of paused1 "[]" 0 "''[Channel1]''" 0 "9999 / 10000" 63 1]
    by (simp_all add: jogScrubScaling_def)
  have "calls s' = [SetValue ''[Channel1]'' ''playposition'' 0]"
    using s'(2) c m p(1) by (simp add: paused1_def mc_init_def engine_getValue_def)
  moreover have "list_all positionWriteOk
       (calls (runEvents [(0, Touch 0 ''[Channel1]''), (10, Touch 127 ''[Channel1]'')] paused1))"
    using scrub_clamps [of paused1 "[(0, Touch 0 ''[Channel1]''), (10, Touch 127 ''[Channel1]'')]"
        0 "''[Channel1]''" 0 0 0 0]
    by (simp add: paused1_def mc_init_def)
  ultimately show ?thesis using h s'(1) p by simp
qed


subsection \<open>Jog wheel: the release timer\<close>

text \<open>
  The facts below follow one deck \<open>d\<close> through the firing of timers: a timer of another
  deck leaves the flag, the slot and the pending timer of \<open>d\<close> alone; the timer of \<open>d\<close>
  ends scratching; a tick on a playing deck leaves exactly one pending timer for the deck,
  the one just begun.
\<close>

lemma jogRelease_state:
  "state_of (jogRelease d g s) =
     (if deckHas g then
        s\<lparr>jogScratchActive := (jogScratchActive s)(d := False),
          jogReleaseTimer := (jogReleaseTimer s)(d := None),
          deckScratchMode := (deckScratchMode s)(g := False),
          controls := (controls s)(g := (controls s g)(''slip_enabled'' := 0)),
          calls := calls s @ [ScratchDisable d, SetValue g ''slip_enabled'' 0]\<rparr>
      else
        s\<lparr>jogScratchActive := (jogScratchActive s)(d := False),
          calls := calls s @ [ScratchDisable d]\<rparr>)"
  by (simp add: jogRelease_def Let_def andThen_def setScratchMode_def engine_defs)

lemma find_by_handle:
  "distinct (map fst ps) \<Longrightarrow> p \<in> set ps \<Longrightarrow> find (\<lambda>q. fst q = fst p) ps = Some p"
proof (induction ps)
  case Nil
  then show ?case by simp
next
  case (Cons a ps)
  then show ?case by (auto simp: image_iff)
qed

lemma timerFired_not_pending:
  "t \<notin> fst ` set (timers s) \<Longrightarrow> timerFired t s = Returned s"
proof -
  assume "t \<notin> fst ` set (timers s)"
  then have "find (\<lambda>p. fst p = t) (timers s) = None"
    by (force simp: find_None_iff)
  then show ?thesis by (simp add: timerFired_def)
qed

lemma timerFired_pending:
  assumes "distinct (map fst (timers s))" and "(t, due, JogRelease d g) \<in> set (timers s)"
  shows "timerFired t s = jogRelease d g (s\<lparr>timers := filter (\<lambda>p. fst p \<noteq> t) (timers s)\<rparr>)"
proof -
  have "find (\<lambda>q. fst q = fst (t, due, JogRelease d g)) (timers s) = Some (t, due, JogRelease d g)"
    using assms by (rule find_by_handle)
  then show ?thesis by (simp add: timerFired_def)
qed

lemma slot_index: "(d::nat) \<le> 2 \<Longrightarrow> d = 0 \<or> d = 1 \<or> d = 2"
  by arith

lemma timersTracked_iff:
  "timersTracked s \<longleftrightarrow>
     distinct (map fst (timers s))
     \<and> (\<forall>q\<in>set (timers s). fst q < next_timer s
           \<and> jogReleaseTimer s (cb_deck (snd (snd q))) = Some (fst q))
     \<and> (\<forall>d h. d \<le> 2 \<longrightarrow> jogReleaseTimer s d = Some h \<longrightarrow> h < next_timer s)"
  (is "?l \<longleftrightarrow> ?r")
proof
  assume ?l
  then show ?r
    by (auto simp: timersTracked_def list_all_iff dest!: slot_index split: option.splits)
next
  assume r: ?r
  then have b: "\<And>d h. d \<le> 2 \<Longrightarrow> jogReleaseTimer s d = Some h \<Longrightarrow> h < next_timer s"
    by blast
  have "case jogReleaseTimer s 0 of None \<Rightarrow> True | Some h \<Rightarrow> h < next_timer s"
    "case jogReleaseTimer s 1 of None \<Rightarrow> True | Some h \<Rightarrow> h < next_timer s"
    "case jogReleaseTimer s 2 of None \<Rightarrow> True | Some h \<Rightarrow> h < next_timer s"
    using b [of 0] b [of 1] b [of 2] by (simp_all split: option.splits)
  with r show ?l
    by (simp add: timersTracked_def list_all_iff)
qed

lemma tracked_after_release:
  assumes tr: "timersTracked s"
    and nx: "next_timer s' = next_timer s"
    and sub: "set (timers s') \<subseteq> set (timers s)"
    and dist: "distinct (map fst (timers s'))"
    and slot: "jogReleaseTimer s' = jogReleaseTimer s
               \<or> (jogReleaseTimer s' = (jogReleaseTimer s)(d := None)
                   \<and> (\<forall>q\<in>set (timers s'). cb_deck (snd (snd q)) \<noteq> d))"
  shows "timersTracked s'"
proof -
  have a: "\<forall>q\<in>set (timers s). fst q < next_timer s
           \<and> jogReleaseTimer s (cb_deck (snd (snd q))) = Some (fst q)"
    and b: "\<forall>d h. d \<le> 2 \<longrightarrow> jogReleaseTimer s d = Some h \<longrightarrow> h < next_timer s"
    using tr by (simp_all add: timersTracked_iff)
  have a': "\<forall>q\<in>set (timers s'). fst q < next_timer s'
           \<and> jogReleaseTimer s' (cb_deck (snd (snd q))) = Some (fst q)"
  proof
    fix q assume q': "q \<in> set (timers s')"
    then have "q \<in> set (timers s)" using sub by blast
    with a have f: "fst q < next_timer s"
      "jogReleaseTimer s (cb_deck (snd (snd q))) = Some (fst q)" by auto
    from slot have "jogReleaseTimer s' (cb_deck (snd (snd q))) = Some (fst q)"
    proof
      assume "jogReleaseTimer s' = jogReleaseTimer s"
      with f show ?thesis by simp
    next
      assume "jogReleaseTimer s' = (jogReleaseTimer s)(d := None)
                   \<and> (\<forall>q\<in>set (timers s'). cb_deck (snd (snd q)) \<noteq> d)"
      with f q' show ?thesis by simp
    qed
    with f nx show "fst q < next_timer s'
           \<and> jogReleaseTimer s' (cb_deck (snd (snd q))) = Some (fst q)" by simp
  qed
  have b': "\<forall>d h. d \<le> 2 \<longrightarrow> jogReleaseTimer s' d = Some h \<longrightarrow> h < next_timer s'"
    using b slot nx by (auto split: if_splits)
  show ?thesis using dist a' b' by (simp add: timersTracked_iff)
qed

text \<open>Firing a timer that does not belong to deck \<open>d\<close>.\<close>

lemma timerFired_other:
  assumes tr: "timersTracked s"
    and other: "\<forall>q\<in>set (timers s). fst q = t \<longrightarrow> cb_deck (snd (snd q)) \<noteq> d"
  shows "timersTracked (state_of (timerFired t s))
    \<and> jogScratchActive (state_of (timerFired t s)) d = jogScratchActive s d
    \<and> jogReleaseTimer (state_of (timerFired t s)) d = jogReleaseTimer s d
    \<and> controls (state_of (timerFired t s)) grp ''play'' = controls s grp ''play''
    \<and> pendingFor d (state_of (timerFired t s)) = pendingFor d s
    \<and> set (timers (state_of (timerFired t s))) \<subseteq> set (timers s)
    \<and> next_timer (state_of (timerFired t s)) = next_timer s"
proof (cases "t \<in> fst ` set (timers s)")
  case False
  then show ?thesis using tr by (simp add: timerFired_not_pending)
next
  case True
  then obtain due cb where p: "(t, due, cb) \<in> set (timers s)" by auto
  obtain d' g where cb: "cb = JogRelease d' g" by (cases cb)
  from other p cb have dd: "d' \<noteq> d" by auto
  have dist: "distinct (map fst (timers s))" using tr by (simp add: timersTracked_iff)
  have tracked: "\<And>q. q \<in> set (timers s) \<Longrightarrow>
      fst q < next_timer s \<and> jogReleaseTimer s (cb_deck (snd (snd q))) = Some (fst q)"
    using tr by (simp add: timersTracked_iff)
  have handle: "jogReleaseTimer s d' = Some t" using tracked [OF p] cb by simp
  let ?s1 = "s\<lparr>timers := filter (\<lambda>p. fst p \<noteq> t) (timers s)\<rparr>"
  have fired: "timerFired t s = jogRelease d' g ?s1"
    using timerFired_pending [OF dist] p cb by simp
  have keep: "\<And>q. q \<in> set (timers s) \<Longrightarrow> fst q \<noteq> t \<Longrightarrow> cb_deck (snd (snd q)) \<noteq> d'"
    using tracked handle by fastforce
  have pend: "filter (\<lambda>p. cb_deck (snd (snd p)) = d) (filter (\<lambda>p. fst p \<noteq> t) (timers s))
      = filter (\<lambda>p. cb_deck (snd (snd p)) = d) (timers s)"
    unfolding filter_filter by (rule filter_cong) (use other in auto)
  have tr': "timersTracked (state_of (jogRelease d' g ?s1))"
  proof (rule tracked_after_release [OF tr, where d = d'])
    show "next_timer (state_of (jogRelease d' g ?s1)) = next_timer s"
      by (simp add: jogRelease_state)
    show "set (timers (state_of (jogRelease d' g ?s1))) \<subseteq> set (timers s)"
      by (auto simp: jogRelease_state)
    show "distinct (map fst (timers (state_of (jogRelease d' g ?s1))))"
      using dist by (simp add: jogRelease_state distinct_map_filter)
    show "jogReleaseTimer (state_of (jogRelease d' g ?s1)) = jogReleaseTimer s
          \<or> (jogReleaseTimer (state_of (jogRelease d' g ?s1)) = (jogReleaseTimer s)(d' := None)
              \<and> (\<forall>q\<in>set (timers (state_of (jogRelease d' g ?s1))). cb_deck (snd (snd q)) \<noteq> d'))"
      using keep by (auto simp: jogRelease_state)
  qed
  show ?thesis
    using tr' dd pend
    by (auto simp: fired jogRelease_state pendingFor_def)
qed

lemma fires_other:
  assumes "timersTracked s"
    and "\<forall>p\<in>set ps. \<forall>q\<in>set (timers s). fst q = fst p \<longrightarrow> cb_deck (snd (snd q)) \<noteq> d"
  shows "timersTracked (foldl (\<lambda>s' p. state_of (timerFired (fst p) s')) s ps)
    \<and> jogScratchActive (foldl (\<lambda>s' p. state_of (timerFired (fst p) s')) s ps) d
        = jogScratchActive s d
    \<and> jogReleaseTimer (foldl (\<lambda>s' p. state_of (timerFired (fst p) s')) s ps) d
        = jogReleaseTimer s d
    \<and> controls (foldl (\<lambda>s' p. state_of (timerFired (fst p) s')) s ps) grp ''play''
        = controls s grp ''play''
    \<and> pendingFor d (foldl (\<lambda>s' p. state_of (timerFired (fst p) s')) s ps) = pendingFor d s
    \<and> set (timers (foldl (\<lambda>s' p. state_of (timerFired (fst p) s')) s ps)) \<subseteq> set (timers s)
    \<and> next_timer (foldl (\<lambda>s' p. state_of (timerFired (fst p) s')) s ps) = next_timer s"
  using assms
proof (induction ps arbitrary: s)
  case Nil
  then show ?case by simp
next
  case (Cons p ps)
  let ?s1 = "state_of (timerFired (fst p) s)"
  have one: "timersTracked ?s1
    \<and> jogScratchActive ?s1 d = jogScratchActive s d
    \<and> jogReleaseTimer ?s1 d = jogReleaseTimer s d
    \<and> controls ?s1 grp ''play'' = controls s grp ''play''
    \<and> pendingFor d ?s1 = pendingFor d s
    \<and> set (timers ?s1) \<subseteq> set (timers s)
    \<and> next_timer ?s1 = next_timer s"
    using Cons.prems by (intro timerFired_other) auto
  have rest: "\<forall>p\<in>set ps. \<forall>q\<in>set (timers ?s1). fst q = fst p \<longrightarrow> cb_deck (snd (snd q)) \<noteq> d"
    using Cons.prems(2) one by auto
  from Cons.IH [OF _ rest] one show ?case by auto
qed

lemma pending_is_own:
  "q \<in> set (timers s) \<Longrightarrow> cb_deck (snd (snd q)) = d \<Longrightarrow> q \<in> set (pendingFor d s)"
  by (simp add: pendingFor_def)

lemma same_handle_same_timer:
  "distinct (map fst ps) \<Longrightarrow> p \<in> set ps \<Longrightarrow> q \<in> set ps \<Longrightarrow> fst p = fst q \<Longrightarrow> p = q"
  by (metis find_by_handle option.inject)

lemma fireDue_before:
  assumes tr: "timersTracked s"
    and notdue: "\<forall>q\<in>set (pendingFor d s). now < fst (snd q)"
  shows "timersTracked (fireDue now s)
    \<and> jogScratchActive (fireDue now s) d = jogScratchActive s d
    \<and> jogReleaseTimer (fireDue now s) d = jogReleaseTimer s d
    \<and> controls (fireDue now s) grp ''play'' = controls s grp ''play''
    \<and> pendingFor d (fireDue now s) = pendingFor d s
    \<and> set (timers (fireDue now s)) \<subseteq> set (timers s)
    \<and> next_timer (fireDue now s) = next_timer s"
proof -
  have dist: "distinct (map fst (timers s))" using tr by (simp add: timersTracked_iff)
  have "\<forall>p\<in>set (filter (\<lambda>p. fst (snd p) \<le> now) (timers s)).
          \<forall>q\<in>set (timers s). fst q = fst p \<longrightarrow> cb_deck (snd (snd q)) \<noteq> d"
  proof (intro ballI impI)
    fix p q
    assume p: "p \<in> set (filter (\<lambda>p. fst (snd p) \<le> now) (timers s))"
      and q: "q \<in> set (timers s)" and e: "fst q = fst p"
    from p have pin: "p \<in> set (timers s)" and due: "fst (snd p) \<le> now" by auto
    have "p = q" using same_handle_same_timer [OF dist pin q] e by simp
    show "cb_deck (snd (snd q)) \<noteq> d"
    proof
      assume "cb_deck (snd (snd q)) = d"
      then have "q \<in> set (pendingFor d s)" using q by (rule pending_is_own [rotated])
      with notdue have "now < fst (snd q)" by blast
      with due \<open>p = q\<close> show False by simp
    qed
  qed
  from fires_other [OF tr this] show ?thesis by (simp add: fireDue_def)
qed

lemma timerFired_own:
  assumes tr: "timersTracked s"
    and own: "pendingFor d s = [(h, due, JogRelease d grp)]"
    and has: "deckHas grp"
  shows "timersTracked (state_of (timerFired h s))
    \<and> \<not> jogScratchActive (state_of (timerFired h s)) d
    \<and> jogReleaseTimer (state_of (timerFired h s)) d = None
    \<and> controls (state_of (timerFired h s)) grp ''slip_enabled'' = 0
    \<and> pendingFor d (state_of (timerFired h s)) = []
    \<and> calls (state_of (timerFired h s))
        = calls s @ [ScratchDisable d, SetValue grp ''slip_enabled'' 0]"
proof -
  have dist: "distinct (map fst (timers s))" using tr by (simp add: timersTracked_iff)
  have tracked: "\<And>q. q \<in> set (timers s) \<Longrightarrow>
      fst q < next_timer s \<and> jogReleaseTimer s (cb_deck (snd (snd q))) = Some (fst q)"
    using tr by (simp add: timersTracked_iff)
  have "(h, due, JogRelease d grp) \<in> set (pendingFor d s)" using own by simp
  then have p: "(h, due, JogRelease d grp) \<in> set (timers s)" by (simp add: pendingFor_def)
  let ?s1 = "s\<lparr>timers := filter (\<lambda>p. fst p \<noteq> h) (timers s)\<rparr>"
  have fired: "timerFired h s = jogRelease d grp ?s1"
    using timerFired_pending [OF dist p] .
  have handle: "jogReleaseTimer s d = Some h" using tracked [OF p] by simp
  have keep: "\<And>q. q \<in> set (timers s) \<Longrightarrow> fst q \<noteq> h \<Longrightarrow> cb_deck (snd (snd q)) \<noteq> d"
    using tracked handle by fastforce
  have pend: "filter (\<lambda>p. cb_deck (snd (snd p)) = d) (filter (\<lambda>p. fst p \<noteq> h) (timers s)) = []"
    using keep by (auto simp: filter_empty_conv)
  have tr': "timersTracked (state_of (jogRelease d grp ?s1))"
  proof (rule tracked_after_release [OF tr, where d = d])
    show "next_timer (state_of (jogRelease d grp ?s1)) = next_timer s"
      by (simp add: jogRelease_state)
    show "set (timers (state_of (jogRelease d grp ?s1))) \<subseteq> set (timers s)"
      by (auto simp: jogRelease_state)
    show "distinct (map fst (timers (state_of (jogRelease d grp ?s1))))"
      using dist by (simp add: jogRelease_state distinct_map_filter)
    show "jogReleaseTimer (state_of (jogRelease d grp ?s1)) = jogReleaseTimer s
          \<or> (jogReleaseTimer (state_of (jogRelease d grp ?s1)) = (jogReleaseTimer s)(d := None)
              \<and> (\<forall>q\<in>set (timers (state_of (jogRelease d grp ?s1))). cb_deck (snd (snd q)) \<noteq> d))"
      using keep by (auto simp: jogRelease_state)
  qed
  show ?thesis
    using tr' pend has by (simp add: fired jogRelease_state pendingFor_def)
qed

lemma timerFired_slip_stays_off:
  assumes z: "controls s grp ''slip_enabled'' = 0"
  shows "controls (state_of (timerFired t s)) grp ''slip_enabled'' = 0"
proof (cases "find (\<lambda>p. fst p = t) (timers s)")
  case None
  then show ?thesis using z by (simp add: timerFired_def)
next
  case (Some p)
  obtain t' due d g where p: "p = (t', due, JogRelease d g)"
    by (cases p, rename_tac a b c, case_tac c) auto
  show ?thesis
    using Some p z by (simp add: timerFired_def jogRelease_state)
qed

lemma fires_slip_stays_off:
  "controls s grp ''slip_enabled'' = 0 \<Longrightarrow>
   controls (foldl (\<lambda>s' p. state_of (timerFired (fst p) s')) s ps) grp ''slip_enabled'' = 0"
  by (induction ps arbitrary: s) (simp_all add: timerFired_slip_stays_off)

lemma fires_extend_calls:
  "\<exists>new. calls (foldl (\<lambda>s' p. state_of (timerFired (fst p) s')) s ps) = calls s @ new"
  using extendsOk_fold [of s ps] by (auto simp: extendsOk_def)

lemma fireDue_after:
  assumes tr: "timersTracked s"
    and own: "pendingFor d s = [(h, due, JogRelease d grp)]"
    and has: "deckHas grp"
    and isdue: "due \<le> now"
  shows "timersTracked (fireDue now s)
    \<and> \<not> jogScratchActive (fireDue now s) d
    \<and> jogReleaseTimer (fireDue now s) d = None
    \<and> controls (fireDue now s) grp ''slip_enabled'' = 0
    \<and> pendingFor d (fireDue now s) = []
    \<and> ScratchDisable d \<in> set (drop (length (calls s)) (calls (fireDue now s)))"
proof -
  let ?fire = "\<lambda>s' p. state_of (timerFired (fst p) s')"
  let ?p0 = "(h, due, JogRelease d grp)"
  let ?ps = "filter (\<lambda>p. fst (snd p) \<le> now) (timers s)"
  have dist: "distinct (map fst (timers s))" using tr by (simp add: timersTracked_iff)
  have "?p0 \<in> set (pendingFor d s)" using own by simp
  then have p0: "?p0 \<in> set (timers s)" by (simp add: pendingFor_def)
  then have "?p0 \<in> set ?ps" using isdue by simp
  then obtain ps1 ps2 where split: "?ps = ps1 @ ?p0 # ps2" by (meson split_list)
  have dps: "distinct ?ps" using dist by (simp add: distinct_map)
  then have notin1: "?p0 \<notin> set ps1" using split by auto
  have sub1: "set ps1 \<subseteq> set (timers s)"
  proof -
    have "set ps1 \<subseteq> set ?ps" using split by auto
    then show ?thesis by auto
  qed
  \<comment> \<open>the timers before it belong to other decks\<close>
  have others1: "\<forall>p\<in>set ps1. \<forall>q\<in>set (timers s). fst q = fst p \<longrightarrow> cb_deck (snd (snd q)) \<noteq> d"
  proof (intro ballI impI)
    fix p q
    assume p: "p \<in> set ps1" and q: "q \<in> set (timers s)" and e: "fst q = fst p"
    have pin: "p \<in> set (timers s)" using p sub1 by auto
    have pq: "p = q" using same_handle_same_timer [OF dist pin q] e by simp
    show "cb_deck (snd (snd q)) \<noteq> d"
    proof
      assume "cb_deck (snd (snd q)) = d"
      then have "q \<in> set (pendingFor d s)" using q by (rule pending_is_own [rotated])
      then have "q = ?p0" using own by simp
      with pq p notin1 show False by simp
    qed
  qed
  let ?s1 = "foldl ?fire s ps1"
  have s1: "timersTracked ?s1" "pendingFor d ?s1 = [?p0]"
    using fires_other [OF tr others1, of grp] own by simp_all
  obtain new1 where c1: "calls ?s1 = calls s @ new1" using fires_extend_calls by blast
  let ?s2 = "state_of (timerFired h ?s1)"
  have s2: "timersTracked ?s2" "\<not> jogScratchActive ?s2 d" "jogReleaseTimer ?s2 d = None"
    "controls ?s2 grp ''slip_enabled'' = 0" "pendingFor d ?s2 = []"
    "calls ?s2 = calls ?s1 @ [ScratchDisable d, SetValue grp ''slip_enabled'' 0]"
    using timerFired_own [OF s1 has] by simp_all
  have none2: "\<forall>q\<in>set (timers ?s2). cb_deck (snd (snd q)) \<noteq> d"
    using s2(5) by (auto simp: pendingFor_def filter_empty_conv)
  then have others2: "\<forall>p\<in>set ps2. \<forall>q\<in>set (timers ?s2). fst q = fst p \<longrightarrow> cb_deck (snd (snd q)) \<noteq> d"
    by blast
  let ?s3 = "foldl ?fire ?s2 ps2"
  have s3: "timersTracked ?s3" "jogScratchActive ?s3 d = jogScratchActive ?s2 d"
    "jogReleaseTimer ?s3 d = jogReleaseTimer ?s2 d" "pendingFor d ?s3 = pendingFor d ?s2"
    using fires_other [OF s2(1) others2, of grp] by simp_all
  have slip3: "controls ?s3 grp ''slip_enabled'' = 0"
    using s2(4) by (rule fires_slip_stays_off)
  obtain new3 where c3: "calls ?s3 = calls ?s2 @ new3" using fires_extend_calls by blast
  have fd: "fireDue now s = ?s3"
    by (simp add: fireDue_def split)
  have "calls ?s3 = calls s @ (new1 @ [ScratchDisable d, SetValue grp ''slip_enabled'' 0] @ new3)"
    using c1 c3 s2(6) by simp
  then have "ScratchDisable d \<in> set (drop (length (calls s)) (calls ?s3))"
    by simp
  then show ?thesis
    using s3 s2 slip3 by (simp add: fd)
qed

lemma jogTouch_playing_state:
  assumes ch: "grp = ''[Channel1]'' \<or> grp = ''[Channel2]''"
    and mv: "jogMovement v \<noteq> 0"
    and pl: "engine_getValue s grp ''play'' = 1"
  shows "\<exists>s'. jogTouch now v grp s = Returned s'
    \<and> timers s' = (case jogReleaseTimer s (deckIndex grp) of
                     None \<Rightarrow> timers s
                   | Some t \<Rightarrow> filter (\<lambda>p. fst p \<noteq> t) (timers s))
                  @ [(next_timer s, now + 50, JogRelease (deckIndex grp) grp)]
    \<and> next_timer s' = next_timer s + 1
    \<and> jogReleaseTimer s' = (jogReleaseTimer s)(deckIndex grp := Some (next_timer s))
    \<and> jogScratchActive s' (deckIndex grp)
    \<and> engine_getValue s' grp ''play'' = 1"
  using assms
  by (auto simp: jogTouch_def Let_def andThen_def scratchStart_def setScratchMode_def
      rearmRelease_def engine_defs split: option.splits)

lemma jogTouch_arms:
  assumes tr: "timersTracked s"
    and ch: "grp = ''[Channel1]'' \<or> grp = ''[Channel2]''"
    and mv: "jogMovement v \<noteq> 0"
    and pl: "engine_getValue s grp ''play'' = 1"
  shows "\<exists>s'. jogTouch now v grp s = Returned s'
    \<and> scratchArmed (deckIndex grp) grp (now + 50) s'
    \<and> jogReleaseTimer s' (deckIndex grp) = Some (next_timer s)
    \<and> (\<forall>t. jogReleaseTimer s (deckIndex grp) = Some t \<longrightarrow> t \<notin> fst ` set (timers s'))"
proof -
  let ?d = "deckIndex grp"
  let ?new = "(next_timer s, now + 50, JogRelease ?d grp)"
  let ?old = "case jogReleaseTimer s ?d of None \<Rightarrow> timers s
                | Some t \<Rightarrow> filter (\<lambda>p. fst p \<noteq> t) (timers s)"
  obtain s' where ret: "jogTouch now v grp s = Returned s'"
    and tm: "timers s' = ?old @ [?new]"
    and nx: "next_timer s' = next_timer s + 1"
    and hd: "jogReleaseTimer s' = (jogReleaseTimer s)(?d := Some (next_timer s))"
    and act: "jogScratchActive s' ?d"
    and play: "engine_getValue s' grp ''play'' = 1"
    using jogTouch_playing_state [OF ch mv pl, of now] by blast
  have dist: "distinct (map fst (timers s))" using tr by (simp add: timersTracked_iff)
  have tracked: "\<And>q. q \<in> set (timers s) \<Longrightarrow>
      fst q < next_timer s \<and> jogReleaseTimer s (cb_deck (snd (snd q))) = Some (fst q)"
    using tr by (simp add: timersTracked_iff)
  have sub: "set ?old \<subseteq> set (timers s)" by (auto split: option.splits)
  have dold: "distinct (map fst ?old)"
    using dist by (auto simp: distinct_map_filter split: option.splits)
  have other: "\<And>q. q \<in> set ?old \<Longrightarrow> cb_deck (snd (snd q)) \<noteq> ?d"
  proof
    fix q assume q: "q \<in> set ?old" and e: "cb_deck (snd (snd q)) = ?d"
    have "q \<in> set (timers s)" using q sub by blast
    then have "jogReleaseTimer s ?d = Some (fst q)" using tracked e by fastforce
    with q show False by simp
  qed
  have pend: "pendingFor ?d s' = [?new]"
    using other by (auto simp: pendingFor_def tm filter_empty_conv)
  have fresh: "\<And>q. q \<in> set ?old \<Longrightarrow> fst q < next_timer s"
    using tracked sub by blast
  have "next_timer s \<notin> fst ` set ?old"
  proof
    assume "next_timer s \<in> fst ` set ?old"
    then obtain q where "q \<in> set ?old" and "fst q = next_timer s" by auto
    with fresh [of q] show False by simp
  qed
  then have dnew: "distinct (map fst (timers s'))"
    using dold by (simp add: tm)
  have all: "list_all (\<lambda>p. fst p < next_timer s'
               \<and> jogReleaseTimer s' (cb_deck (snd (snd p))) = Some (fst p)) (timers s')"
    unfolding list_all_iff
  proof
    fix p assume "p \<in> set (timers s')"
    then consider "p \<in> set ?old" | "p = ?new" by (auto simp: tm)
    then show "fst p < next_timer s' \<and> jogReleaseTimer s' (cb_deck (snd (snd p))) = Some (fst p)"
    proof cases
      case 1
      then have "p \<in> set (timers s)" using sub by blast
      then show ?thesis using tracked [of p] other [OF 1] by (simp add: nx hd)
    next
      case 2
      then show ?thesis by (simp add: nx hd)
    qed
  qed
  have slots: "\<forall>d h. d \<le> 2 \<longrightarrow> jogReleaseTimer s d = Some h \<longrightarrow> h < next_timer s"
    using tr by (simp add: timersTracked_iff)
  have slots': "\<forall>d h. d \<le> 2 \<longrightarrow> jogReleaseTimer s' d = Some h \<longrightarrow> h < next_timer s'"
    using slots by (auto simp: hd nx less_Suc_eq split: if_splits)
  have tr': "timersTracked s'" using dnew all slots' by (simp add: timersTracked_iff list_all_iff)
  have drange: "?d \<le> 2" by (simp add: deckIndex_def)
  have gone: "\<forall>t. jogReleaseTimer s ?d = Some t \<longrightarrow> t \<notin> fst ` set (timers s')"
  proof (intro allI impI)
    fix t assume t: "jogReleaseTimer s ?d = Some t"
    show "t \<notin> fst ` set (timers s')"
    proof
      assume "t \<in> fst ` set (timers s')"
      then obtain p where p: "p \<in> set (timers s')" and e: "fst p = t" by auto
      from p consider "p \<in> set ?old" | "p = ?new" by (auto simp: tm)
      then show False
      proof cases
        case 1
        then show ?thesis using t e by simp
      next
        case 2
        have "t < next_timer s" using slots drange t by blast
        then show ?thesis using 2 e by simp
      qed
    qed
  qed
  show ?thesis
    using ret tr' act play pend hd gone by (auto simp: scratchArmed_def)
qed

lemma jogTouch_paused_state:
  assumes "jogMovement v \<noteq> 0" and "engine_getValue u grp ''play'' \<noteq> 1"
  shows "\<exists>u1. jogTouch now v grp u = Returned u1
    \<and> timers u1 = timers u
    \<and> next_timer u1 = next_timer u
    \<and> jogReleaseTimer u1 = jogReleaseTimer u
    \<and> jogScratchActive u1 = jogScratchActive u
    \<and> calls u1 = calls u @ [SetValue grp ''playposition''
         (scrubPosition (engine_getValue u grp ''playposition'') (jogMovement v)
            (if jogTickCount u1 (deckIndex grp) > 3
             then speedFactor (jogTickCount u1 (deckIndex grp)) else 1))]"
  using assms by (simp add: jogTouch_def Let_def scrub_def engine_defs)

lemma armed_parts:
  "scratchArmed d grp due s \<longleftrightarrow>
     timersTracked s \<and> jogScratchActive s d \<and> engine_getValue s grp ''play'' = 1
     \<and> (\<exists>h. jogReleaseTimer s d = Some h \<and> pendingFor d s = [(h, due, JogRelease d grp)])"
  by (auto simp: scratchArmed_def split: option.splits)

lemma armed_fireDue_before:
  assumes arm: "scratchArmed d grp due s" and early: "now < due"
  shows "scratchArmed d grp due (fireDue now s)"
proof -
  from arm obtain h where tr: "timersTracked s" and act: "jogScratchActive s d"
    and pl: "engine_getValue s grp ''play'' = 1"
    and hd: "jogReleaseTimer s d = Some h"
    and pend: "pendingFor d s = [(h, due, JogRelease d grp)]"
    by (auto simp: armed_parts)
  have "\<forall>q\<in>set (pendingFor d s). now < fst (snd q)" using pend early by simp
  from fireDue_before [OF tr this, of grp] act pl hd pend show ?thesis
    by (simp add: armed_parts engine_getValue_def)
qed

lemma armed_fireDue_after:
  assumes arm: "scratchArmed d grp due s" and has: "deckHas grp" and late: "due \<le> now"
  shows "\<not> jogScratchActive (fireDue now s) d
    \<and> jogReleaseTimer (fireDue now s) d = None
    \<and> engine_getValue (fireDue now s) grp ''slip_enabled'' = 0
    \<and> pendingFor d (fireDue now s) = []
    \<and> ScratchDisable d \<in> set (drop (length (calls s)) (calls (fireDue now s)))"
proof -
  from arm obtain h where tr: "timersTracked s"
    and pend: "pendingFor d s = [(h, due, JogRelease d grp)]"
    by (auto simp: armed_parts)
  from fireDue_after [OF tr pend has late] show ?thesis
    by (simp add: engine_getValue_def)
qed

lemma armed_tick:
  assumes arm: "scratchArmed (deckIndex grp) grp due s"
    and ch: "grp = ''[Channel1]'' \<or> grp = ''[Channel2]''"
    and mv: "jogMovement v \<noteq> 0"
  shows "scratchArmed (deckIndex grp) grp (now + 50) (state_of (jogTouch now v grp s))"
proof -
  from arm have tr: "timersTracked s" and pl: "engine_getValue s grp ''play'' = 1"
    by (simp_all add: armed_parts)
  from jogTouch_arms [OF tr ch mv pl, of now] show ?thesis by auto
qed

lemma armed_run:
  assumes ch: "grp = ''[Channel1]'' \<or> grp = ''[Channel2]''"
  shows "scratchArmed (deckIndex grp) grp (t + 50) s \<Longrightarrow> ticksWithin t tvs \<Longrightarrow>
    scratchArmed (deckIndex grp) grp (lastTime t tvs + 50) (runEvents (touches grp tvs) s)"
proof (induction tvs arbitrary: s t)
  case Nil
  then show ?case by (simp add: touches_def)
next
  case (Cons a tvs)
  obtain t' v where a: "a = (t', v)" by (cases a)
  from Cons.prems(2) a have early: "t' < t + 50" and mv: "jogMovement v \<noteq> 0"
    and rest: "ticksWithin t' tvs" by simp_all
  have "scratchArmed (deckIndex grp) grp (t + 50) (fireDue t' s)"
    using Cons.prems(1) early by (rule armed_fireDue_before)
  then have "scratchArmed (deckIndex grp) grp (t' + 50)
      (state_of (jogTouch t' v grp (fireDue t' s)))"
    using ch mv by (rule armed_tick)
  from Cons.IH [OF this rest] show ?case
    by (simp add: a touches_def)
qed

lemma armed_tick_calls:
  assumes arm: "scratchArmed (deckIndex grp) grp due s"
    and mv: "jogMovement v \<noteq> 0"
  shows "\<exists>h s1. jogReleaseTimer s (deckIndex grp) = Some h
    \<and> jogTouch now v grp s = Returned s1
    \<and> calls s1 = calls s
        @ [ScratchTick (deckIndex grp)
             (of_int (jogMovement v) * speedFactor (jogTickCount s1 (deckIndex grp))),
           StopTimer h, BeginTimer (next_timer s) 50]"
proof -
  from arm obtain h where act: "jogScratchActive s (deckIndex grp)"
    and pl: "engine_getValue s grp ''play'' = 1"
    and hd: "jogReleaseTimer s (deckIndex grp) = Some h"
    by (auto simp: armed_parts)
  from jogTouch_scratch_tick [OF mv pl act, of now] hd show ?thesis by auto
qed

lemma scratching1_armed: "scratchArmed 1 ''[Channel1]'' 50 scratching1"
  by code_simp

lemma deckIndex_ch1: "deckIndex ''[Channel1]'' = 1"
  by (simp add: deckIndex_def)

text \<open>
  C5. For every unit in scratching, each tick is claimed to cancel the pending release
  timer and to arm a new one, so that the unit stays in scratching while ticks arrive
  within 50 ms of each other. A tick that arrives while the deck does not play takes the
  scrub branch, which does not touch the timer: deck 1 starts scratching at time 0, the
  deck is paused at 10, and ticks at 20, 40 and 60 follow. After the tick at 20 the unit
  is still scratching and the pending timer is still the one due at 50; when the tick at
  60 has been handled the unit has left scratching.
\<close>

theorem paused_ticks_counterexample:
  "jogMovement 65 \<noteq> 0
   \<and> jogScratchActive
       (runEvents [(0, Touch 65 ''[Channel1]''), (10, EngineControl ''[Channel1]'' ''play'' 0),
                   (20, Touch 65 ''[Channel1]'')] playing1) 1
   \<and> timers
       (runEvents [(0, Touch 65 ''[Channel1]''), (10, EngineControl ''[Channel1]'' ''play'' 0),
                   (20, Touch 65 ''[Channel1]'')] playing1)
       = [(1, 50, JogRelease 1 ''[Channel1]'')]
   \<and> \<not> jogScratchActive
       (runEvents [(0, Touch 65 ''[Channel1]''), (10, EngineControl ''[Channel1]'' ''play'' 0),
                   (20, Touch 65 ''[Channel1]''), (40, Touch 65 ''[Channel1]''),
                   (60, Touch 65 ''[Channel1]'')] playing1) 1"
  by code_simp

text \<open>
  C5, amended. For a unit that is scratching on a playing deck with its release timer
  armed, each tick with a non-zero decoded delta that arrives while the deck plays stops
  the pending timer and begins a new one-shot timer of 50 ms, whose handle the slot then
  holds; the stopped handle is no longer pending, so firing it calls nothing. While such
  ticks arrive less than 50 ms after one another the unit stays scratching, armed for 50
  ms after the last tick. Up to that time the unit is scratching; from that time on the
  timer has fired: the engine's scratch mode is disabled, the scratch-active flag and
  the slot are cleared and \<^verbatim>\<open>slip_enabled\<close> is 0. A tick that arrives while the deck
  does not play only writes the play position: the pending timers, the slot and the flag
  stay as they are. An event whose decoded delta is zero changes nothing, in either
  handler; and while the flag is set the outer wheel does what the touch handler does.
\<close>

theorem release_timer_timeline:
  assumes ch: "grp = ''[Channel1]'' \<or> grp = ''[Channel2]''"
    and arm: "scratchArmed (deckIndex grp) grp (t + 50) s"
    and tw: "ticksWithin t tvs"
  shows "scratchArmed (deckIndex grp) grp (lastTime t tvs + 50) (runEvents (touches grp tvs) s)
    \<and> (\<forall>now. now < lastTime t tvs + 50 \<longrightarrow>
          jogScratchActive (fireDue now (runEvents (touches grp tvs) s)) (deckIndex grp))
    \<and> (\<forall>now. lastTime t tvs + 50 \<le> now \<longrightarrow>
          \<not> jogScratchActive (fireDue now (runEvents (touches grp tvs) s)) (deckIndex grp)
          \<and> jogReleaseTimer (fireDue now (runEvents (touches grp tvs) s)) (deckIndex grp) = None
          \<and> engine_getValue (fireDue now (runEvents (touches grp tvs) s)) grp ''slip_enabled'' = 0
          \<and> pendingFor (deckIndex grp) (fireDue now (runEvents (touches grp tvs) s)) = []
          \<and> ScratchDisable (deckIndex grp)
              \<in> set (drop (length (calls (runEvents (touches grp tvs) s)))
                       (calls (fireDue now (runEvents (touches grp tvs) s)))))
    \<and> (\<forall>now v. jogMovement v \<noteq> 0 \<longrightarrow>
          (\<exists>h s1. jogReleaseTimer s (deckIndex grp) = Some h
             \<and> jogTouch now v grp s = Returned s1
             \<and> calls s1 = calls s
                 @ [ScratchTick (deckIndex grp)
                      (of_int (jogMovement v) * speedFactor (jogTickCount s1 (deckIndex grp))),
                    StopTimer h, BeginTimer (next_timer s) 50]
             \<and> scratchArmed (deckIndex grp) grp (now + 50) s1
             \<and> jogReleaseTimer s1 (deckIndex grp) = Some (next_timer s)
             \<and> h \<notin> fst ` set (timers s1)
             \<and> timerFired h s1 = Returned s1))
    \<and> (\<forall>u now v. jogMovement v \<noteq> 0 \<and> engine_getValue u grp ''play'' \<noteq> 1 \<longrightarrow>
          (\<exists>u1. jogTouch now v grp u = Returned u1
             \<and> timers u1 = timers u
             \<and> next_timer u1 = next_timer u
             \<and> jogReleaseTimer u1 = jogReleaseTimer u
             \<and> jogScratchActive u1 = jogScratchActive u
             \<and> calls u1 = calls u @ [SetValue grp ''playposition''
                  (scrubPosition (engine_getValue u grp ''playposition'') (jogMovement v)
                     (if jogTickCount u1 (deckIndex grp) > 3
                      then speedFactor (jogTickCount u1 (deckIndex grp)) else 1))]))
    \<and> (\<forall>u now v. jogMovement v = 0 \<longrightarrow>
          jogTouch now v grp u = Returned u \<and> jogWheel now v grp u = Returned u)
    \<and> (\<forall>u now v. jogScratchActive u (deckIndex grp) \<longrightarrow>
          jogWheel now v grp u = jogTouch now v grp u)"
proof -
  let ?d = "deckIndex grp"
  let ?s' = "runEvents (touches grp tvs) s"
  have e: "\<forall>u now v. jogMovement v \<noteq> 0 \<and> engine_getValue u grp ''play'' \<noteq> 1 \<longrightarrow>
          (\<exists>u1. jogTouch now v grp u = Returned u1
             \<and> timers u1 = timers u
             \<and> next_timer u1 = next_timer u
             \<and> jogReleaseTimer u1 = jogReleaseTimer u
             \<and> jogScratchActive u1 = jogScratchActive u
             \<and> calls u1 = calls u @ [SetValue grp ''playposition''
                  (scrubPosition (engine_getValue u grp ''playposition'') (jogMovement v)
                     (if jogTickCount u1 ?d > 3 then speedFactor (jogTickCount u1 ?d) else 1))])"
    using jogTouch_paused_state by blast
  have f: "\<forall>u now v. jogMovement v = 0 \<longrightarrow>
          jogTouch now v grp u = Returned u \<and> jogWheel now v grp u = Returned u"
    by (simp add: jogTouch_def jogWheel_def)
  have g: "\<forall>u now v. jogScratchActive u ?d \<longrightarrow> jogWheel now v grp u = jogTouch now v grp u"
    by (simp add: jogTouch_def jogWheel_def Let_def)
  have has: "deckHas grp" using ch by (auto simp: deckHas_def)
  have a: "scratchArmed ?d grp (lastTime t tvs + 50) ?s'"
    using ch arm tw by (rule armed_run)
  have b: "\<forall>now. now < lastTime t tvs + 50 \<longrightarrow> jogScratchActive (fireDue now ?s') ?d"
    using armed_fireDue_before [OF a] by (simp add: armed_parts)
  have c: "\<forall>now. lastTime t tvs + 50 \<le> now \<longrightarrow>
          \<not> jogScratchActive (fireDue now ?s') ?d
          \<and> jogReleaseTimer (fireDue now ?s') ?d = None
          \<and> engine_getValue (fireDue now ?s') grp ''slip_enabled'' = 0
          \<and> pendingFor ?d (fireDue now ?s') = []
          \<and> ScratchDisable ?d \<in> set (drop (length (calls ?s')) (calls (fireDue now ?s')))"
    using armed_fireDue_after [OF a has] by blast
  have d: "\<forall>now v. jogMovement v \<noteq> 0 \<longrightarrow>
          (\<exists>h s1. jogReleaseTimer s ?d = Some h
             \<and> jogTouch now v grp s = Returned s1
             \<and> calls s1 = calls s
                 @ [ScratchTick ?d (of_int (jogMovement v) * speedFactor (jogTickCount s1 ?d)),
                    StopTimer h, BeginTimer (next_timer s) 50]
             \<and> scratchArmed ?d grp (now + 50) s1
             \<and> jogReleaseTimer s1 ?d = Some (next_timer s)
             \<and> h \<notin> fst ` set (timers s1)
             \<and> timerFired h s1 = Returned s1)"
  proof (intro allI impI)
    fix now v assume mv: "jogMovement v \<noteq> 0"
    from arm have tr: "timersTracked s" and pl: "engine_getValue s grp ''play'' = 1"
      by (simp_all add: armed_parts)
    from armed_tick_calls [OF arm mv, of now] obtain h s1 where
      h: "jogReleaseTimer s ?d = Some h" and r: "jogTouch now v grp s = Returned s1"
      and cs: "calls s1 = calls s
                 @ [ScratchTick ?d (of_int (jogMovement v) * speedFactor (jogTickCount s1 ?d)),
                    StopTimer h, BeginTimer (next_timer s) 50]"
      by blast
    from jogTouch_arms [OF tr ch mv pl, of now] r h
    have ar: "scratchArmed ?d grp (now + 50) s1"
      and nh: "jogReleaseTimer s1 ?d = Some (next_timer s)"
      and gone: "h \<notin> fst ` set (timers s1)"
      by auto
    from gone have "timerFired h s1 = Returned s1" by (rule timerFired_not_pending)
    with h r cs ar nh gone
    show "\<exists>h s1. jogReleaseTimer s ?d = Some h
             \<and> jogTouch now v grp s = Returned s1
             \<and> calls s1 = calls s
                 @ [ScratchTick ?d (of_int (jogMovement v) * speedFactor (jogTickCount s1 ?d)),
                    StopTimer h, BeginTimer (next_timer s) 50]
             \<and> scratchArmed ?d grp (now + 50) s1
             \<and> jogReleaseTimer s1 ?d = Some (next_timer s)
             \<and> h \<notin> fst ` set (timers s1)
             \<and> timerFired h s1 = Returned s1"
      by blast
  qed
  show ?thesis using a b c d e f g by blast
qed

theorem release_timer_timeline_witness:
  "scratchArmed 1 ''[Channel1]'' 50 scratching1 \<and> ticksWithin 0 [(30, 65)]
   \<and> jogScratchActive (fireDue 79 (runEvents (touches ''[Channel1]'' [(30, 65)]) scratching1)) 1
   \<and> \<not> jogScratchActive (fireDue 81 (runEvents (touches ''[Channel1]'' [(30, 65)]) scratching1)) 1
   \<and> engine_getValue (fireDue 81 (runEvents (touches ''[Channel1]'' [(30, 65)]) scratching1))
        ''[Channel1]'' ''slip_enabled'' = 0
   \<and> jogMovement 64 = 0
   \<and> jogTouch 20 64 ''[Channel1]'' scratching1 = Returned scratching1
   \<and> jogWheel 20 64 ''[Channel1]'' scratching1 = Returned scratching1
   \<and> jogMovement 65 \<noteq> 0 \<and> engine_getValue scratching1_paused ''[Channel1]'' ''play'' \<noteq> 1
   \<and> timers (state_of (jogTouch 20 65 ''[Channel1]'' scratching1_paused))
       = [(1, 50, JogRelease 1 ''[Channel1]'')]
   \<and> jogReleaseTimer (state_of (jogTouch 20 65 ''[Channel1]'' scratching1_paused)) 1 = Some 1
   \<and> jogScratchActive (state_of (jogTouch 20 65 ''[Channel1]'' scratching1_paused)) 1"
proof -
  have arm: "scratchArmed (deckIndex ''[Channel1]'') ''[Channel1]'' (0 + 50) scratching1"
    using scratching1_armed by (simp add: deckIndex_ch1)
  have tw: "ticksWithin 0 [(30, 65)]"
    by (simp add: jogMovement_def jogCenter_def)
  have mv: "jogMovement 64 = 0" "jogMovement 65 \<noteq> 0"
    by (simp_all add: jogMovement_def jogCenter_def)
  have pa: "engine_getValue scratching1_paused ''[Channel1]'' ''play'' \<noteq> 1"
    "timers scratching1_paused = [(1, 50, JogRelease 1 ''[Channel1]'')]"
    "jogReleaseTimer scratching1_paused 1 = Some 1"
    "jogScratchActive scratching1_paused 1"
    by code_simp+
  note inst = release_timer_timeline [OF _ arm tw]
  have line: "jogScratchActive
        (fireDue 79 (runEvents (touches ''[Channel1]'' [(30, 65)]) scratching1)) 1
    \<and> \<not> jogScratchActive
        (fireDue 81 (runEvents (touches ''[Channel1]'' [(30, 65)]) scratching1)) 1
    \<and> engine_getValue (fireDue 81 (runEvents (touches ''[Channel1]'' [(30, 65)]) scratching1))
        ''[Channel1]'' ''slip_enabled'' = 0"
    using inst by (simp add: deckIndex_ch1)
  have zero: "jogTouch 20 64 ''[Channel1]'' scratching1 = Returned scratching1
    \<and> jogWheel 20 64 ''[Channel1]'' scratching1 = Returned scratching1"
    using inst mv(1) by blast
  obtain u1 where u1: "jogTouch 20 65 ''[Channel1]'' scratching1_paused = Returned u1"
    "timers u1 = timers scratching1_paused"
    "jogReleaseTimer u1 = jogReleaseTimer scratching1_paused"
    "jogScratchActive u1 = jogScratchActive scratching1_paused"
    using inst mv(2) pa(1) by blast
  show ?thesis
    using scratching1_armed tw line zero mv pa u1 by simp
qed


subsection \<open>Shift layer: which handler an input reaches\<close>

text \<open>
  Applying a shift state to a deck overwrites what an earlier one left, so the decks are
  always the decks as built with the current effective shift applied; every handler of
  the layer keeps that.
\<close>

lemma applyShiftState_newDeck_twice:
  "applyShiftState b (applyShiftState a newDeck) = applyShiftState b newDeck"
  by (cases a; cases b)
    (simp_all add: applyShiftState_def applyTo_def newDeck_def twoHandlers_def oneHandler_def)

lemma LED_MAP_shiftlock: "LED_MAP ''shiftlock'' = OwnEntry \<lparr>code = 2, decks = [1, 2]\<rparr>"
  by (simp add: LED_MAP_def LED_MAP_own_def leds_def decksFor_def last2_def)

lemma set_shiftlock_returns:
  "\<exists>l'. LedManager_set ''shiftlock'' st None l = Inr l'"
  by (simp add: LedManager_set_def LED_MAP_shiftlock targetDecks_def)

lemma updateShiftState_settles:
  assumes "decks s = Some [(''[Channel1]'', applyShiftState a newDeck),
                           (''[Channel2]'', applyShiftState a newDeck)]"
  shows "\<exists>s'. updateShiftState s = Returned s' \<and> shiftSettled s'
    \<and> shiftHeld s' = shiftHeld s \<and> shiftLock s' = shiftLock s
    \<and> dispatched s' = dispatched s"
proof -
  let ?s1 = "s\<lparr>decks := Some (map (\<lambda>(g, d). (g, applyShiftState (shiftHeld s \<or> shiftLock s) d))
                [(''[Channel1]'', applyShiftState a newDeck),
                 (''[Channel2]'', applyShiftState a newDeck)])\<rparr>"
  obtain l' where l': "LedManager_set ''shiftlock''
      (JStr (if shiftLock ?s1 then ''on'' else ''off'')) None (led ?s1) = Inr l'"
    using set_shiftlock_returns by blast
  have "updateShiftState s = Returned (?s1\<lparr>led := l'\<rparr>)"
    using assms l' by (simp add: updateShiftState_def Let_def)
  moreover have "shiftSettled (?s1\<lparr>led := l'\<rparr>)"
    by (simp add: shiftSettled_def isShiftActive_def applyShiftState_newDeck_twice)
  ultimately show ?thesis by simp
qed

lemma toggleShift_settles:
  assumes "shiftSettled s"
  shows "\<exists>s'. toggleShift v s = Returned s' \<and> shiftSettled s'
    \<and> dispatched s' = dispatched s
    \<and> shiftHeld s' = isButtonOn v \<and> shiftLock s' = shiftLock s"
proof -
  have "decks (s\<lparr>shiftHeld := isButtonOn v\<rparr>)
      = Some [(''[Channel1]'', applyShiftState (isShiftActive s) newDeck),
              (''[Channel2]'', applyShiftState (isShiftActive s) newDeck)]"
    using assms by (simp add: shiftSettled_def)
  from updateShiftState_settles [OF this] show ?thesis
    by (auto simp: toggleShift_def)
qed

lemma applyToDeck_settled:
  assumes "shiftSettled s" and "grp = ''[Channel1]'' \<or> grp = ''[Channel2]''"
  shows "applyToDeck grp s = Returned s"
proof -
  have d: "decks s = Some [(''[Channel1]'', applyShiftState (isShiftActive s) newDeck),
              (''[Channel2]'', applyShiftState (isShiftActive s) newDeck)]"
    using assms(1) by (simp add: shiftSettled_def)
  have "s\<lparr>decks := decks s\<rparr> = s" by simp
  with assms(2) d show ?thesis
    by (auto simp: applyToDeck_def applyShiftState_newDeck_twice)
qed

lemma applyToDeck_keeps:
  assumes "shiftSettled s"
  shows "shiftSettled (state_of (applyToDeck grp s))
    \<and> dispatched (state_of (applyToDeck grp s)) = dispatched s
    \<and> shiftHeld (state_of (applyToDeck grp s)) = shiftHeld s
    \<and> shiftLock (state_of (applyToDeck grp s)) = shiftLock s"
proof (cases "grp = ''[Channel1]'' \<or> grp = ''[Channel2]''")
  case True
  with assms show ?thesis by (simp add: applyToDeck_settled)
next
  case False
  with assms show ?thesis
    by (simp add: applyToDeck_def shiftSettled_def)
qed

lemma dispatchInput_keeps:
  "shiftSettled s \<Longrightarrow> shiftSettled (state_of (dispatchInput name v grp s))
    \<and> shiftHeld (state_of (dispatchInput name v grp s)) = shiftHeld s
    \<and> shiftLock (state_of (dispatchInput name v grp s)) = shiftLock s"
  by (auto simp: dispatchInput_def shiftSettled_def isShiftActive_def split: option.splits)

lemma dispatchInput_modeSwitching:
  assumes "shiftSettled s" and "grp = ''[Channel1]'' \<or> grp = ''[Channel2]''"
    and "Component name \<in> set modeSwitching"
  shows "dispatchInput name v grp s
    = Returned (s\<lparr>dispatched :=
        dispatched s @ [(grp, Component name, v, selected (isShiftActive s))]\<rparr>)"
proof -
  have d: "decks s = Some [(''[Channel1]'', applyShiftState (isShiftActive s) newDeck),
              (''[Channel2]'', applyShiftState (isShiftActive s) newDeck)]"
    using assms(1) by (simp add: shiftSettled_def)
  have c: "map_of (shiftComponents (applyShiftState (isShiftActive s) newDeck)) name
      = Some \<lparr>hasShift = True, hasUnshift = True, input = selected (isShiftActive s)\<rparr>"
    using assms(3)
    by (auto simp: modeSwitching_def applyShiftState_def applyTo_def newDeck_def
        twoHandlers_def oneHandler_def selected_def)
  show ?thesis
    using assms(2) d c by (auto simp: dispatchInput_def)
qed

lemma hotcuePad_keeps:
  "shiftSettled s \<Longrightarrow> shiftSettled (state_of (hotcuePad midino v grp s))
    \<and> shiftHeld (state_of (hotcuePad midino v grp s)) = shiftHeld s
    \<and> shiftLock (state_of (hotcuePad midino v grp s)) = shiftLock s"
  by (auto simp: hotcuePad_def Let_def shiftSettled_def isShiftActive_def split: option.splits)

lemma hotcuePad_modeSwitching:
  assumes "shiftSettled s" and "grp = ''[Channel1]'' \<or> grp = ''[Channel2]''"
    and "i < 4"
  shows "hotcuePad (padNumber i) v grp s
    = Returned (s\<lparr>dispatched :=
        dispatched s @ [(grp, HotcueButton i, v, selected (isShiftActive s))]\<rparr>)"
proof -
  have d: "decks s = Some [(''[Channel1]'', applyShiftState (isShiftActive s) newDeck),
              (''[Channel2]'', applyShiftState (isShiftActive s) newDeck)]"
    using assms(1) by (simp add: shiftSettled_def)
  have h: "hotcueButtons (applyShiftState (isShiftActive s) newDeck)
      = replicate 4 \<lparr>hasShift = True, hasUnshift = True, input = selected (isShiftActive s)\<rparr>"
    by (simp add: applyShiftState_def applyTo_def newDeck_def twoHandlers_def selected_def
        numeral_eq_Suc)
  from assms(3) consider "i = 0" | "i = 1" | "i = 2" | "i = 3" by arith
  then have n: "mapHotcue (padNumber i) = int i + 1"
    by cases (simp_all add: mapHotcue_def padNumber_def)
  show ?thesis
    using assms(2,3) d h n by (auto simp: hotcuePad_def Let_def)
qed

lemma pflButton_keeps:
  assumes "shiftSettled s"
  shows "shiftSettled (state_of (pflButton v grp s))"
proof (cases "isButtonOn v \<and> shiftHeld s")
  case True
  have "decks (s\<lparr>shiftLock := \<not> shiftLock s\<rparr>)
      = Some [(''[Channel1]'', applyShiftState (isShiftActive s) newDeck),
              (''[Channel2]'', applyShiftState (isShiftActive s) newDeck)]"
    using assms by (simp add: shiftSettled_def)
  from updateShiftState_settles [OF this] True show ?thesis
    by (auto simp: pflButton_def)
next
  case False
  with assms show ?thesis
    by (auto simp: pflButton_def shiftSettled_def isShiftActive_def split: option.splits)
qed

lemma handleShiftEvent_keeps:
  assumes "shiftSettled s"
  shows "shiftSettled (state_of (handleShiftEvent ev s))"
proof (cases ev)
  case (ToggleShift v)
  then show ?thesis using toggleShift_settles [OF assms, of v] by auto
next
  case (PflButton v grp)
  then show ?thesis using pflButton_keeps [OF assms] by simp
next
  case (CueButton v grp)
  have "shiftSettled (state_of (applyToDeck grp s))" using applyToDeck_keeps [OF assms] by simp
  then show ?thesis
    using CueButton dispatchInput_keeps [of "state_of (applyToDeck grp s)" "''cue''" v grp]
    by (cases "applyToDeck grp s") (simp_all add: cueButton_def andThen_def)
next
  case (SyncButton v grp)
  have "shiftSettled (state_of (applyToDeck grp s))" using applyToDeck_keeps [OF assms] by simp
  then show ?thesis
    using SyncButton dispatchInput_keeps [of "state_of (applyToDeck grp s)" "''sync''" v grp]
    by (cases "applyToDeck grp s") (simp_all add: syncButton_def andThen_def)
next
  case (DirectButton name v grp)
  then show ?thesis using dispatchInput_keeps [OF assms] by simp
next
  case (HotcuePad midino v grp)
  then show ?thesis using hotcuePad_keeps [OF assms] by simp
qed

lemma runShiftEvents_keeps:
  "shiftSettled s \<Longrightarrow> shiftSettled (runShiftEvents evs s)"
  by (induction evs arbitrary: s) (simp_all add: handleShiftEvent_keeps)

lemma handleShiftEvent_same_shift:
  assumes "shiftSettled s" and "\<not> changesShift ev"
  shows "shiftHeld (state_of (handleShiftEvent ev s)) = shiftHeld s
    \<and> shiftLock (state_of (handleShiftEvent ev s)) = shiftLock s"
proof (cases ev)
  case (CueButton v grp)
  have a: "shiftSettled (state_of (applyToDeck grp s))"
    "shiftHeld (state_of (applyToDeck grp s)) = shiftHeld s"
    "shiftLock (state_of (applyToDeck grp s)) = shiftLock s"
    using applyToDeck_keeps [OF assms(1)] by simp_all
  then show ?thesis
    using CueButton dispatchInput_keeps [of "state_of (applyToDeck grp s)" "''cue''" v grp]
    by (cases "applyToDeck grp s") (simp_all add: cueButton_def andThen_def)
next
  case (SyncButton v grp)
  have a: "shiftSettled (state_of (applyToDeck grp s))"
    "shiftHeld (state_of (applyToDeck grp s)) = shiftHeld s"
    "shiftLock (state_of (applyToDeck grp s)) = shiftLock s"
    using applyToDeck_keeps [OF assms(1)] by simp_all
  then show ?thesis
    using SyncButton dispatchInput_keeps [of "state_of (applyToDeck grp s)" "''sync''" v grp]
    by (cases "applyToDeck grp s") (simp_all add: syncButton_def andThen_def)
next
  case (DirectButton name v grp)
  then show ?thesis using dispatchInput_keeps [OF assms(1)] by simp
next
  case (HotcuePad midino v grp)
  then show ?thesis using hotcuePad_keeps [OF assms(1)] by simp
qed (use assms(2) in simp_all)

lemma runShiftEvents_same_shift:
  "shiftSettled s \<Longrightarrow> list_all (\<lambda>ev. \<not> changesShift ev) evs \<Longrightarrow>
   isShiftActive (runShiftEvents evs s) = isShiftActive s"
proof (induction evs arbitrary: s)
  case Nil
  then show ?case by simp
next
  case (Cons ev evs)
  have k: "shiftSettled (state_of (handleShiftEvent ev s))"
    using Cons.prems(1) by (rule handleShiftEvent_keeps)
  have e: "isShiftActive (state_of (handleShiftEvent ev s)) = isShiftActive s"
    using handleShiftEvent_same_shift [of s ev] Cons.prems by (simp add: isShiftActive_def)
  from Cons.IH [OF k] Cons.prems(2) e show ?case by simp
qed

lemma modeSwitching_cases:
  assumes "ctl \<in> set modeSwitching"
  obtains name where "ctl = Component name" and "name \<noteq> ''sync''"
  | i where "ctl = HotcueButton i" and "i < 4"
  using assms by (auto simp: modeSwitching_def)

lemma button_dispatch:
  assumes st: "shiftSettled s" and ch: "grp = ''[Channel1]'' \<or> grp = ''[Channel2]''"
    and nm: "ctl \<in> set modeSwitching"
  shows "handleShiftEvent (buttonEvent ctl v grp) s
    = Returned (s\<lparr>dispatched := dispatched s @ [(grp, ctl, v, selected (isShiftActive s))]\<rparr>)"
  using nm
proof (cases rule: modeSwitching_cases)
  case (1 name)
  have c: "Component name \<in> set modeSwitching" using nm 1 by simp
  show ?thesis
  proof (cases "name = ''cue''")
    case True
    then show ?thesis
      using dispatchInput_modeSwitching [OF st ch c, of v] applyToDeck_settled [OF st ch] 1
      by (simp add: cueButton_def andThen_def)
  next
    case False
    then show ?thesis
      using dispatchInput_modeSwitching [OF st ch c, of v] 1 by simp
  qed
next
  case (2 i)
  then show ?thesis
    using hotcuePad_modeSwitching [OF st ch, of i v] by simp
qed

lemma LED_MAP_own_leds:
  assumes "name \<in> fst ` set leds"
  shows "\<exists>d. LED_MAP name = OwnEntry d"
proof -
  have "fst ` set (map (\<lambda>(name, c). (name, \<lparr>code = c, decks = decksFor name\<rparr>)) leds)
      = fst ` set leds"
    by force
  with assms have "LED_MAP_own name \<noteq> None"
    unfolding LED_MAP_own_def by (simp only: map_of_eq_None_iff not_not)
  then show ?thesis by (auto simp: LED_MAP_def)
qed

lemma set_own_returns:
  assumes "name \<in> fst ` set leds"
  shows "\<exists>l'. LedManager_set name st opts l = Inr l'"
proof -
  obtain d where "LED_MAP name = OwnEntry d" using LED_MAP_own_leds [OF assms] by blast
  then show ?thesis
    by (simp add: LedManager_set_def targetDecks_def split: option.splits)
qed

lemma set_calls_own_return:
  "list_all (\<lambda>c. fst c \<in> fst ` set leds) cs \<Longrightarrow> \<exists>l'. set_calls cs l = Inr l'"
proof (induction cs arbitrary: l)
  case Nil
  then show ?case by simp
next
  case (Cons c cs)
  obtain name st opts where c: "c = (name, st, opts)" by (cases c)
  with Cons.prems have "name \<in> fst ` set leds" by simp
  then obtain l1 where "LedManager_set name st opts l = Inr l1"
    using set_own_returns by blast
  moreover obtain l2 where "set_calls cs l1 = Inr l2"
    using Cons.IH [of l1] Cons.prems by auto
  ultimately show ?case using c by simp
qed

lemma buildComponents_fields:
  "decks (state_of (buildComponents s))
     = Some [(''[Channel1]'', applyShiftState (isShiftActive s) newDeck),
             (''[Channel2]'', applyShiftState (isShiftActive s) newDeck)]
   \<and> dispatched (state_of (buildComponents s)) = dispatched s
   \<and> shiftHeld (state_of (buildComponents s)) = shiftHeld s
   \<and> shiftLock (state_of (buildComponents s)) = shiftLock s"
  by (simp add: buildComponents_def Let_def split: sum.splits)

lemma shift_init_built:
  "\<exists>l. shift_init = state_of (buildComponents (shift_loaded\<lparr>led := l\<rparr>))"
proof -
  have "list_all (\<lambda>c. fst c \<in> fst ` set leds)
      (map (\<lambda>(n, status). (n, status, None)) (map (\<lambda>(name, c). (name, JStr ''on'')) leds))"
    by (force simp: list_all_iff)
  then obtain l where "LedManager_bulk (map (\<lambda>(name, c). (name, JStr ''on'')) leds)
      (led shift_loaded) = Inr l"
    unfolding LedManager_bulk_def using set_calls_own_return by blast
  then show ?thesis by (auto simp: shift_init_def MC2000_init_def)
qed

lemma shift_init_fields:
  "dispatched shift_init = []" "shiftHeld shift_init = False" "shiftLock shift_init = False"
proof -
  obtain l where l: "shift_init = state_of (buildComponents (shift_loaded\<lparr>led := l\<rparr>))"
    using shift_init_built by blast
  show "dispatched shift_init = []" "shiftHeld shift_init = False" "shiftLock shift_init = False"
    using buildComponents_fields [of "shift_loaded\<lparr>led := l\<rparr>"]
    by (simp_all add: l shift_loaded_def)
qed

lemma shift_init_settled: "shiftSettled shift_init"
proof -
  obtain l where l: "shift_init = state_of (buildComponents (shift_loaded\<lparr>led := l\<rparr>))"
    using shift_init_built by blast
  have "isShiftActive shift_init = isShiftActive (shift_loaded\<lparr>led := l\<rparr>)"
    using buildComponents_fields [of "shift_loaded\<lparr>led := l\<rparr>"] l
    by (simp add: isShiftActive_def)
  then show ?thesis
    using buildComponents_fields [of "shift_loaded\<lparr>led := l\<rparr>"] l
    by (simp add: shiftSettled_def)
qed

lemma gesture_across_shift_press:
  assumes st: "shiftSettled s" and ch: "grp = ''[Channel1]'' \<or> grp = ''[Channel2]''"
    and nm: "ctl \<in> set modeSwitching"
  shows "dispatched (runShiftEvents
      [buttonEvent ctl p grp, ToggleShift 0x7F, buttonEvent ctl r grp] s)
    = dispatched s @ [(grp, ctl, p, selected (isShiftActive s)), (grp, ctl, r, ShiftedInput)]"
proof -
  let ?s1 = "s\<lparr>dispatched := dispatched s @ [(grp, ctl, p, selected (isShiftActive s))]\<rparr>"
  have p: "handleShiftEvent (buttonEvent ctl p grp) s = Returned ?s1"
    using st ch nm by (rule button_dispatch)
  have st1: "shiftSettled ?s1" using st by (simp add: shiftSettled_def isShiftActive_def)
  obtain s2 where t: "toggleShift 0x7F ?s1 = Returned s2" and st2: "shiftSettled s2"
    and d2: "dispatched s2 = dispatched ?s1" and h2: "shiftHeld s2 = isButtonOn 0x7F"
    using toggleShift_settles [OF st1, of "0x7F"] by blast
  have act: "isShiftActive s2" using h2 by (simp add: isShiftActive_def isButtonOn_def)
  have r: "handleShiftEvent (buttonEvent ctl r grp) s2
      = Returned (s2\<lparr>dispatched := dispatched s2 @ [(grp, ctl, r, selected (isShiftActive s2))]\<rparr>)"
    using st2 ch nm by (rule button_dispatch)
  show ?thesis
    using p t r d2 act by (simp add: selected_def)
qed

text \<open>
  C3. For a mode-switching control, the handler a press was dispatched to is claimed to
  stay bound until the matching release is dispatched, even if shift changes in between.
  The script rebinds at once: \<^verbatim>\<open>toggleShift\<close> calls \<^verbatim>\<open>updateShiftState\<close>, which calls
  \<^verbatim>\<open>applyShiftState\<close> on every deck. A cue press with shift off reaches the normal
  handler; shift is then pressed; the release of the cue button reaches the shifted
  handler. The same happens to the keylock button, whose wrapper does not re-apply the
  shift state itself, and to a hotcue button.
\<close>

theorem shift_mid_gesture_counterexample:
  "isButtonOn 0x7F \<and> \<not> isButtonOn 0
   \<and> dispatched (runShiftEvents
        [CueButton 0x7F ''[Channel1]'', ToggleShift 0x7F, CueButton 0 ''[Channel1]''] shift_init)
     = [(''[Channel1]'', Component ''cue'', 0x7F, NormalInput),
        (''[Channel1]'', Component ''cue'', 0, ShiftedInput)]
   \<and> dispatched (runShiftEvents
        [DirectButton ''keylock'' 0x7F ''[Channel2]'', ToggleShift 0x7F,
         DirectButton ''keylock'' 0 ''[Channel2]''] shift_init)
     = [(''[Channel2]'', Component ''keylock'', 0x7F, NormalInput),
        (''[Channel2]'', Component ''keylock'', 0, ShiftedInput)]
   \<and> dispatched (runShiftEvents
        [HotcuePad 0x17 0x7F ''[Channel1]'', ToggleShift 0x7F,
         HotcuePad 0x17 0 ''[Channel1]''] shift_init)
     = [(''[Channel1]'', HotcueButton 0, 0x7F, NormalInput),
        (''[Channel1]'', HotcueButton 0, 0, ShiftedInput)]"
proof -
  have nm: "Component ''cue'' \<in> set modeSwitching" "Component ''keylock'' \<in> set modeSwitching"
    "HotcueButton 0 \<in> set modeSwitching"
    by (simp_all add: modeSwitching_def)
  have off: "selected (isShiftActive shift_init) = NormalInput"
    by (simp add: selected_def isShiftActive_def shift_init_fields)
  show ?thesis
    using gesture_across_shift_press [OF shift_init_settled _ nm(1), of "''[Channel1]''" "0x7F" 0]
      gesture_across_shift_press [OF shift_init_settled _ nm(2), of "''[Channel2]''" "0x7F" 0]
      gesture_across_shift_press [OF shift_init_settled _ nm(3), of "''[Channel1]''" "0x7F" 0]
      off
    by (simp add: shift_init_fields isButtonOn_def padNumber_def)
qed

text \<open>
  C3, amended. For each of the two decks and every mode-switching control (the cue,
  keylock, load, pitch bend and loop buttons and the four hotcue buttons), every input
  is dispatched to the handler that the effective shift (held or locked) selects at
  that moment: the press to the handler of the shift state at the press, the release to
  the handler of the shift state at the release, whatever events come in between. The
  two are the same handler exactly when the effective shift is the same at both moments,
  which is so when no shift or monitor button event comes in between.
\<close>

theorem binding_follows_shift:
  assumes st: "shiftSettled s" and ch: "grp = ''[Channel1]'' \<or> grp = ''[Channel2]''"
    and nm: "ctl \<in> set modeSwitching"
  shows "\<exists>s1 s3.
      handleShiftEvent (buttonEvent ctl press grp) s = Returned s1
    \<and> dispatched s1 = dispatched s @ [(grp, ctl, press, selected (isShiftActive s))]
    \<and> handleShiftEvent (buttonEvent ctl release grp) (runShiftEvents mid s1) = Returned s3
    \<and> dispatched s3 = dispatched (runShiftEvents mid s1)
        @ [(grp, ctl, release, selected (isShiftActive (runShiftEvents mid s1)))]
    \<and> (list_all (\<lambda>ev. \<not> changesShift ev) mid \<longrightarrow>
         isShiftActive (runShiftEvents mid s1) = isShiftActive s)
    \<and> (selected (isShiftActive (runShiftEvents mid s1)) = selected (isShiftActive s))
        = (isShiftActive (runShiftEvents mid s1) = isShiftActive s)"
proof -
  let ?s1 = "s\<lparr>dispatched := dispatched s @ [(grp, ctl, press, selected (isShiftActive s))]\<rparr>"
  have p: "handleShiftEvent (buttonEvent ctl press grp) s = Returned ?s1"
    using st ch nm by (rule button_dispatch)
  have st1: "shiftSettled ?s1"
    using st by (simp add: shiftSettled_def isShiftActive_def)
  have st2: "shiftSettled (runShiftEvents mid ?s1)"
    using st1 by (rule runShiftEvents_keeps)
  let ?s2 = "runShiftEvents mid ?s1"
  let ?s3 = "?s2\<lparr>dispatched := dispatched ?s2 @ [(grp, ctl, release, selected (isShiftActive ?s2))]\<rparr>"
  have r: "handleShiftEvent (buttonEvent ctl release grp) ?s2 = Returned ?s3"
    using st2 ch nm by (rule button_dispatch)
  have same: "list_all (\<lambda>ev. \<not> changesShift ev) mid \<longrightarrow> isShiftActive ?s2 = isShiftActive s"
    using runShiftEvents_same_shift [OF st1, of mid] by (simp add: isShiftActive_def)
  have sel: "(selected (isShiftActive ?s2) = selected (isShiftActive s))
        = (isShiftActive ?s2 = isShiftActive s)"
    by (simp add: selected_def)
  show ?thesis
    using p r same sel by (intro exI [of _ ?s1] exI [of _ ?s3]) simp
qed

theorem binding_follows_shift_witness:
  "shiftSettled shift_init \<and> Component ''cue'' \<in> set modeSwitching
   \<and> HotcueButton 2 \<in> set modeSwitching
   \<and> dispatched (runShiftEvents
        [CueButton 0x7F ''[Channel1]'', ToggleShift 0x7F, ToggleShift 0,
         CueButton 0 ''[Channel1]''] shift_init)
     = [(''[Channel1]'', Component ''cue'', 0x7F, NormalInput),
        (''[Channel1]'', Component ''cue'', 0, NormalInput)]
   \<and> dispatched (runShiftEvents
        [HotcuePad 0x19 0x7F ''[Channel2]'', DirectButton ''keylock'' 0x7F ''[Channel2]'',
         HotcuePad 0x19 0 ''[Channel2]''] shift_init)
     = [(''[Channel2]'', HotcueButton 2, 0x7F, NormalInput),
        (''[Channel2]'', Component ''keylock'', 0x7F, NormalInput),
        (''[Channel2]'', HotcueButton 2, 0, NormalInput)]"
proof -
  have nm: "Component ''cue'' \<in> set modeSwitching" "HotcueButton 2 \<in> set modeSwitching"
    by (simp_all add: modeSwitching_def)
  \<comment> \<open>the cue button, with shift pressed and released in between\<close>
  from binding_follows_shift [OF shift_init_settled _ nm(1), of "''[Channel1]''" "0x7F" 0
      "[ToggleShift 0x7F, ToggleShift 0]"]
  obtain s1 s3 where
    a: "handleShiftEvent (buttonEvent (Component ''cue'') 0x7F ''[Channel1]'') shift_init
        = Returned s1"
    and b: "dispatched s1 = dispatched shift_init
        @ [(''[Channel1]'', Component ''cue'', 0x7F, selected (isShiftActive shift_init))]"
    and c: "handleShiftEvent (buttonEvent (Component ''cue'') 0 ''[Channel1]'')
        (runShiftEvents [ToggleShift 0x7F, ToggleShift 0] s1) = Returned s3"
    and d: "dispatched s3 = dispatched (runShiftEvents [ToggleShift 0x7F, ToggleShift 0] s1)
        @ [(''[Channel1]'', Component ''cue'', 0,
            selected (isShiftActive (runShiftEvents [ToggleShift 0x7F, ToggleShift 0] s1)))]"
    by auto
  have run: "runShiftEvents
        [CueButton 0x7F ''[Channel1]'', ToggleShift 0x7F, ToggleShift 0,
         CueButton 0 ''[Channel1]''] shift_init = s3"
    using a c by simp
  have st1: "shiftSettled s1"
    using handleShiftEvent_keeps [OF shift_init_settled,
        of "buttonEvent (Component ''cue'') 0x7F ''[Channel1]''"] a
    by simp
  obtain sa where sa: "toggleShift 0x7F s1 = Returned sa" "shiftSettled sa"
    "dispatched sa = dispatched s1"
    using toggleShift_settles [OF st1] by blast
  obtain sb where sb: "toggleShift 0 sa = Returned sb" "shiftSettled sb"
    "dispatched sb = dispatched sa"
    using toggleShift_settles [OF sa(2)] by blast
  have mid: "runShiftEvents [ToggleShift 0x7F, ToggleShift 0] s1 = sb"
    using sa sb by simp
  have held: "shiftHeld sb = False"
    using sb(1)
    by (auto simp: toggleShift_def updateShiftState_def Let_def isButtonOn_def
        split: option.splits sum.splits)
  have lock: "shiftLock sb = shiftLock s1"
    using sa(1) sb(1)
    by (auto simp: toggleShift_def updateShiftState_def Let_def split: option.splits sum.splits)
  have lock1: "shiftLock s1 = shiftLock shift_init"
    using handleShiftEvent_same_shift [OF shift_init_settled,
        of "buttonEvent (Component ''cue'') 0x7F ''[Channel1]''"] a
    by simp
  have off: "isShiftActive sb = False"
    using held lock lock1 by (simp add: isShiftActive_def shift_init_fields)
  have first: "dispatched (runShiftEvents
        [CueButton 0x7F ''[Channel1]'', ToggleShift 0x7F, ToggleShift 0,
         CueButton 0 ''[Channel1]''] shift_init)
     = [(''[Channel1]'', Component ''cue'', 0x7F, NormalInput),
        (''[Channel1]'', Component ''cue'', 0, NormalInput)]"
    using run b d mid sa(3) sb(3) off
    by (simp add: selected_def isShiftActive_def shift_init_fields)
  \<comment> \<open>a hotcue button, with a keylock press in between\<close>
  from binding_follows_shift [OF shift_init_settled _ nm(2), of "''[Channel2]''" "0x7F" 0
      "[DirectButton ''keylock'' 0x7F ''[Channel2]'']"]
  obtain t1 t3 where
    e: "handleShiftEvent (buttonEvent (HotcueButton 2) 0x7F ''[Channel2]'') shift_init
        = Returned t1"
    and f: "dispatched t1 = dispatched shift_init
        @ [(''[Channel2]'', HotcueButton 2, 0x7F, selected (isShiftActive shift_init))]"
    and g: "handleShiftEvent (buttonEvent (HotcueButton 2) 0 ''[Channel2]'')
        (runShiftEvents [DirectButton ''keylock'' 0x7F ''[Channel2]''] t1) = Returned t3"
    and h: "dispatched t3
        = dispatched (runShiftEvents [DirectButton ''keylock'' 0x7F ''[Channel2]''] t1)
        @ [(''[Channel2]'', HotcueButton 2, 0,
            selected (isShiftActive
              (runShiftEvents [DirectButton ''keylock'' 0x7F ''[Channel2]''] t1)))]"
    and same: "isShiftActive (runShiftEvents [DirectButton ''keylock'' 0x7F ''[Channel2]''] t1)
        = isShiftActive shift_init"
    by auto
  have run2: "runShiftEvents
        [HotcuePad 0x19 0x7F ''[Channel2]'', DirectButton ''keylock'' 0x7F ''[Channel2]'',
         HotcuePad 0x19 0 ''[Channel2]''] shift_init = t3"
    using e g by (simp add: padNumber_def)
  have st2: "shiftSettled t1"
    using handleShiftEvent_keeps [OF shift_init_settled,
        of "buttonEvent (HotcueButton 2) 0x7F ''[Channel2]''"] e
    by simp
  have kl: "Component ''keylock'' \<in> set modeSwitching" by (simp add: modeSwitching_def)
  have act1: "isShiftActive t1 = isShiftActive shift_init"
    using handleShiftEvent_same_shift [OF shift_init_settled,
        of "buttonEvent (HotcueButton 2) 0x7F ''[Channel2]''"] e
    by (simp add: isShiftActive_def)
  have midk: "dispatched (runShiftEvents [DirectButton ''keylock'' 0x7F ''[Channel2]''] t1)
      = dispatched t1 @ [(''[Channel2]'', Component ''keylock'', 0x7F, NormalInput)]"
    using dispatchInput_modeSwitching [OF st2 _ kl, of "''[Channel2]''" "0x7F"] act1
    by (simp add: selected_def isShiftActive_def shift_init_fields)
  have second: "dispatched (runShiftEvents
        [HotcuePad 0x19 0x7F ''[Channel2]'', DirectButton ''keylock'' 0x7F ''[Channel2]'',
         HotcuePad 0x19 0 ''[Channel2]''] shift_init)
     = [(''[Channel2]'', HotcueButton 2, 0x7F, NormalInput),
        (''[Channel2]'', Component ''keylock'', 0x7F, NormalInput),
        (''[Channel2]'', HotcueButton 2, 0, NormalInput)]"
    using run2 f h midk same
    by (simp add: selected_def isShiftActive_def shift_init_fields)
  show ?thesis
    using first second shift_init_settled nm by simp
qed

end
